theory Spec2Isabelle
  imports Complex_Main
begin

section \<open>Python values used by the two scripts\<close>

text \<open>
  The repository holds two Python scripts: \<^verbatim>\<open>n.py\<close> (class \<^verbatim>\<open>DZIGenerator\<close>, which cuts an
  image into a Deep Zoom pyramid and writes the XML descriptor) and \<^verbatim>\<open>diganosis.py\<close>
  (which reads a descriptor and a reference image back). Python integers are unbounded and are
  modelled by \<open>int\<close>. The expressions \<^verbatim>\<open>math.ceil(a / b)\<close> and \<^verbatim>\<open>math.log2(x)\<close> go through
  binary floating point in Python; here they are computed on the reals, which agrees with the
  floating-point result as long as the operands are exactly representable (image dimensions
  below \<open>2 ^ 53\<close>; the quotients are by powers of two or compared against integers only after
  rounding up).
\<close>

datatype exc =
    ValueError
  | ZeroDivisionError
  | TypeError
  | IndexError
  | OSError
  | ParseError
  | OtherError string

text \<open>\<^verbatim>\<open>a / b\<close> on numbers: raises on a zero divisor.\<close>

definition truediv :: "real \<Rightarrow> real \<Rightarrow> exc + real" where
  "truediv a b = (if b = 0 then Inl ZeroDivisionError else Inr (a / b))"

text \<open>\<^verbatim>\<open>math.log2(x)\<close>: a domain error for \<open>x \<le> 0\<close>.\<close>

definition math_log2 :: "real \<Rightarrow> exc + real" where
  "math_log2 x = (if x \<le> 0 then Inl ValueError else Inr (log 2 x))"

definition math_ceil :: "real \<Rightarrow> int" where
  "math_ceil x = \<lceil>x\<rceil>"

text \<open>\<^verbatim>\<open>math.ceil(a / b)\<close> as one step, the form in which the generator always uses it.\<close>

definition ceil_truediv :: "real \<Rightarrow> real \<Rightarrow> exc + int" where
  "ceil_truediv a b = (case truediv a b of Inl e \<Rightarrow> Inl e | Inr q \<Rightarrow> Inr (math_ceil q))"

text \<open>\<^verbatim>\<open>range(n)\<close> for an integer \<open>n\<close>: empty when \<open>n \<le> 0\<close>.\<close>

definition range_py :: "int \<Rightarrow> int list" where
  "range_py n = [0..n - 1]"

subsection \<open>Strings\<close>

definition dquote :: char where
  "dquote = CHR 0x22"

definition newline :: char where
  "newline = CHR 0x0A"

definition digit_char :: "nat \<Rightarrow> char" where
  "digit_char d = ''0123456789'' ! d"

fun str_nat :: "nat \<Rightarrow> string" where
  "str_nat n = (if n < 10 then [digit_char n] else str_nat (n div 10) @ [digit_char (n mod 10)])"

declare str_nat.simps [simp del]

text \<open>\<^verbatim>\<open>str(i)\<close> and \<^verbatim>\<open>f"{i}"\<close> for an integer: decimal digits, a minus sign when negative.\<close>

definition str_int :: "int \<Rightarrow> string" where
  "str_int i = (if i < 0 then CHR ''-'' # str_nat (nat (- i)) else str_nat (nat i))"

text \<open>\<^verbatim>\<open>s.lower()\<close> on ASCII letters; other bytes are left as they are.\<close>

definition lower_char :: "char \<Rightarrow> char" where
  "lower_char c =
     (let n = (of_char c :: nat) in if 65 \<le> n \<and> n \<le> 90 then char_of (n + 32) else c)"

definition lower :: "string \<Rightarrow> string" where
  "lower s = map lower_char s"

text \<open>\<^verbatim>\<open>os.path.join(a, b)\<close> and \<^verbatim>\<open>os.path.basename(p)\<close> with the POSIX separator.\<close>

definition path_join :: "string \<Rightarrow> string \<Rightarrow> string" where
  "path_join a b =
     (if b \<noteq> [] \<and> hd b = CHR ''/'' then b
      else if a = [] \<or> last a = CHR ''/'' then a @ b
      else a @ ''/'' @ b)"

definition basename :: "string \<Rightarrow> string" where
  "basename p = rev (takeWhile (\<lambda>c. c \<noteq> CHR ''/'') (rev p))"

section \<open>Image Access: the contract of the imaging library\<close>

text \<open>
  An image, as far as the scripts look at it: its colour mode, its pixel dimensions and its
  pixel data (one list of 8-bit band values per coordinate).
\<close>

type_synonym box = "int \<times> int \<times> int \<times> int"

record image =
  mode :: string
  size_px :: "int \<times> int"
  pixels :: "int \<times> int \<Rightarrow> int list"

text \<open>How \<^verbatim>\<open>tile.save\<close> is called: as JPEG with a quality, as PNG, or with the library's defaults.\<close>

datatype save_opts = SaveJPEG int | SavePNG | SaveDefault

text \<open>One constructor for each \<^verbatim>\<open>print\<close> statement; the payload is what the line shows.\<close>

datatype message =
    Rule60
  | TitleLine
  | OpeningLine string
  | ErrorOpeningLine exc
  | ImageSizeLine int int
  | ModeLine string
  | ConvertingLine string
  | CompositingLine
  | MaxZoomLine int
  | GeneratingLine int int
  | TileSizeLine int
  | OverlapLine int
  | LevelLine int int int int int int
  | ProgressLine int int
  | EmptyLine
  | CreatedLine string
  | CompleteLine
  | TimeLine
  | TotalTilesLine int
  | DziFileLine string
  | TilesDirLine string

text \<open>
  The calls a run makes to the outside: standard output, the imaging library and the file
  system, in the order in which they are made.
\<close>

datatype event =
    Stdout message
  | ImageOpen string
  | ImageConvert image string
  | ImageNew string "int \<times> int" "int list"
  | ImageSplit image
  | ImagePaste image image image
  | ImageResize image "int \<times> int"
  | ImageCrop image box
  | ImageSave image string save_opts
  | MakeDirs string
  | WriteFile string string

text \<open>
  The outside world. \<open>fault\<close> says which calls raise and what; the other fields are what the
  library computes: the decoded file, the pixel data after a mode conversion and after
  resampling.
\<close>

record env =
  fault :: "event \<Rightarrow> exc option"
  file_image :: "string \<Rightarrow> image"
  convert_px :: "image \<Rightarrow> string \<Rightarrow> int \<times> int \<Rightarrow> int list"
  resample_px :: "image \<Rightarrow> int \<times> int \<Rightarrow> int \<times> int \<Rightarrow> int list"

text \<open>What a call raises. Writing a line to standard output is taken never to fail.\<close>

definition raises :: "env \<Rightarrow> event \<Rightarrow> exc option" where
  "raises en ev = (case ev of Stdout m \<Rightarrow> None | _ \<Rightarrow> fault en ev)"

subsection \<open>Computations with a trace and exceptions\<close>

type_synonym 'a io = "event list \<times> (exc + 'a)"

definition io_return :: "'a \<Rightarrow> 'a io" where
  "io_return x = ([], Inr x)"

definition io_lift :: "exc + 'a \<Rightarrow> 'a io" where
  "io_lift r = ([], r)"

definition io_bind :: "'a io \<Rightarrow> ('a \<Rightarrow> 'b io) \<Rightarrow> 'b io" where
  "io_bind m f =
     (case snd m of
        Inl e \<Rightarrow> (fst m, Inl e)
      | Inr x \<Rightarrow> (fst m @ fst (f x), snd (f x)))"

text \<open>\<^verbatim>\<open>try: ... except Exception as e: ...\<close>\<close>

definition io_try :: "'a io \<Rightarrow> (exc \<Rightarrow> 'a io) \<Rightarrow> 'a io" where
  "io_try m h =
     (case snd m of
        Inl e \<Rightarrow> (fst m @ fst (h e), snd (h e))
      | Inr x \<Rightarrow> m)"

definition call :: "env \<Rightarrow> event \<Rightarrow> unit io" where
  "call en ev = ([ev], case raises en ev of None \<Rightarrow> Inr () | Some e \<Rightarrow> Inl e)"

definition print :: "message \<Rightarrow> unit io" where
  "print m = ([Stdout m], Inr ())"

subsection \<open>Library operations\<close>

text \<open>
  Each operation is a call (it is recorded, and it may raise) followed by the value the
  library's contract gives it.
\<close>

definition image_open :: "env \<Rightarrow> string \<Rightarrow> image io" where
  "image_open en path = io_bind (call en (ImageOpen path)) (\<lambda>_. io_return (file_image en path))"

definition convert :: "env \<Rightarrow> image \<Rightarrow> string \<Rightarrow> image io" where
  "convert en img m =
     io_bind (call en (ImageConvert img m))
       (\<lambda>_. io_return \<lparr>mode = m, size_px = size_px img, pixels = convert_px en img m\<rparr>)"

definition resize :: "env \<Rightarrow> image \<Rightarrow> int \<times> int \<Rightarrow> image io" where
  "resize en img sz =
     io_bind (call en (ImageResize img sz))
       (\<lambda>_. io_return \<lparr>mode = mode img, size_px = sz, pixels = resample_px en img sz\<rparr>)"

text \<open>\<^verbatim>\<open>Image.new(mode, size, color)\<close>\<close>

definition image_new :: "env \<Rightarrow> string \<Rightarrow> int \<times> int \<Rightarrow> int list \<Rightarrow> image io" where
  "image_new en m sz color =
     io_bind (call en (ImageNew m sz color))
       (\<lambda>_. io_return \<lparr>mode = m, size_px = sz, pixels = (\<lambda>_. color)\<rparr>)"

text \<open>The number of bands of a mode.\<close>

definition band_count :: "string \<Rightarrow> nat" where
  "band_count m =
     (if m \<in> {''RGBA'', ''CMYK'', ''RGBX'', ''RGBa''} then 4
      else if m \<in> {''RGB'', ''YCbCr'', ''LAB'', ''HSV''} then 3
      else if m \<in> {''LA'', ''PA'', ''La''} then 2
      else 1)"

text \<open>\<^verbatim>\<open>img.split()\<close>: one greyscale image for each band.\<close>

definition split_bands :: "env \<Rightarrow> image \<Rightarrow> image list io" where
  "split_bands en img =
     io_bind (call en (ImageSplit img))
       (\<lambda>_. io_return
          (map (\<lambda>k. \<lparr>mode = ''L'', size_px = size_px img, pixels = (\<lambda>p. [pixels img p ! k])\<rparr>)
             [0..<band_count (mode img)]))"

text \<open>\<^verbatim>\<open>xs[k]\<close> on a list.\<close>

definition index :: "'a list \<Rightarrow> nat \<Rightarrow> exc + 'a" where
  "index xs k = (if k < length xs then Inr (xs ! k) else Inl IndexError)"

text \<open>
  The library's 8-bit blend of a destination value \<open>d\<close> and a source value \<open>s\<close> under a mask
  value \<open>a\<close>: \<open>(d * (255 - a) + s * a) / 255\<close>, rounded.
\<close>

definition blend :: "int \<Rightarrow> int \<Rightarrow> int \<Rightarrow> int" where
  "blend a d s = (let t = d * (255 - a) + s * a + 128 in (t div 256 + t) div 256)"

definition inside :: "int \<times> int \<Rightarrow> int \<times> int \<Rightarrow> bool" where
  "inside p sz = (0 \<le> fst p \<and> fst p < fst sz \<and> 0 \<le> snd p \<and> snd p < snd sz)"

text \<open>
  \<^verbatim>\<open>dst.paste(src, mask=m)\<close> at the origin: the source is read in the destination's bands and
  blended in under the mask; outside the source the destination stays. The call changes
  \<open>dst\<close> in place; here the changed image is returned.
\<close>

definition paste :: "env \<Rightarrow> image \<Rightarrow> image \<Rightarrow> image \<Rightarrow> image io" where
  "paste en dst src msk =
     io_bind (call en (ImagePaste dst src msk))
       (\<lambda>_. io_return (dst\<lparr>pixels :=
          (\<lambda>p. if inside p (size_px src)
               then map2 (blend (hd (pixels msk p))) (pixels dst p) (pixels src p)
               else pixels dst p)\<rparr>))"

text \<open>\<^verbatim>\<open>img.crop((x1, y1, x2, y2))\<close>\<close>

definition crop :: "env \<Rightarrow> image \<Rightarrow> box \<Rightarrow> image io" where
  "crop en img b =
     io_bind (call en (ImageCrop img b))
       (\<lambda>_. io_return (case b of (x1, y1, x2, y2) \<Rightarrow>
          \<lparr>mode = mode img, size_px = (x2 - x1, y2 - y1),
           pixels = (\<lambda>(x, y). pixels img (x + x1, y + y1))\<rparr>))"

section \<open>The generator (\<^verbatim>\<open>n.py\<close>)\<close>

record generator =
  image_path :: string
  output_name :: string
  tile_size :: int
  overlap :: int
  format :: string
  quality :: int
  dzi_file :: string
  tiles_dir :: string
  max_level :: int

text \<open>\<^verbatim>\<open>DZIGenerator.__init__\<close>: stores the configuration as given; nothing is checked.\<close>

definition init :: "string \<Rightarrow> string \<Rightarrow> int \<Rightarrow> int \<Rightarrow> string \<Rightarrow> int \<Rightarrow> generator" where
  "init image_path' output_name' tile_size' overlap' format' quality' =
     \<lparr>image_path = image_path', output_name = output_name', tile_size = tile_size',
      overlap = overlap', format = lower format', quality = quality',
      dzi_file = output_name' @ ''.dzi'', tiles_dir = output_name' @ ''_files'',
      max_level = 0\<rparr>"

subsection \<open>\<^verbatim>\<open>_save_tile\<close>\<close>

text \<open>The crop rectangle of tile \<open>(col, row)\<close>: content plus overlap, then clamped.\<close>

definition crop_box :: "generator \<Rightarrow> int \<Rightarrow> int \<Rightarrow> int \<Rightarrow> int \<Rightarrow> box" where
  "crop_box self col row level_width level_height =
     (let x1_content = col * tile_size self;
          y1_content = row * tile_size self;
          x1_crop = x1_content - overlap self;
          y1_crop = y1_content - overlap self;
          x2_crop = x1_content + tile_size self + overlap self;
          y2_crop = y1_content + tile_size self + overlap self;
          x1_clamped = max 0 x1_crop;
          y1_clamped = max 0 y1_crop;
          x2_clamped = min level_width x2_crop;
          y2_clamped = min level_height y2_crop
      in (x1_clamped, y1_clamped, x2_clamped, y2_clamped))"

definition tile_filename :: "generator \<Rightarrow> int \<Rightarrow> int \<Rightarrow> string" where
  "tile_filename self col row = str_int col @ ''_'' @ str_int row @ ''.'' @ format self"

definition save_tile ::
  "env \<Rightarrow> generator \<Rightarrow> image \<Rightarrow> string \<Rightarrow> int \<Rightarrow> int \<Rightarrow> int \<Rightarrow> int \<Rightarrow> unit io" where
  "save_tile en self img level_dir col row lw lh =
     io_bind (crop en img (crop_box self col row lw lh))
       (\<lambda>tile. let tile_path = path_join level_dir (tile_filename self col row)
         in if format self = ''jpeg'' then
              io_bind (if mode tile \<notin> {''RGB'', ''L''} then convert en tile ''RGB''
                       else io_return tile)
                (\<lambda>tile. call en (ImageSave tile tile_path (SaveJPEG (quality self))))
            else if format self = ''png'' then call en (ImageSave tile tile_path SavePNG)
            else call en (ImageSave tile tile_path SaveDefault))"

subsection \<open>\<^verbatim>\<open>_generate_level\<close>\<close>

definition scale_factor :: "generator \<Rightarrow> int \<Rightarrow> real" where
  "scale_factor self level = 2 powi (max_level self - level)"

definition level_width :: "generator \<Rightarrow> int \<Rightarrow> int \<Rightarrow> int" where
  "level_width self level orig_width = math_ceil (of_int orig_width / scale_factor self level)"

definition level_height :: "generator \<Rightarrow> int \<Rightarrow> int \<Rightarrow> int" where
  "level_height self level orig_height = math_ceil (of_int orig_height / scale_factor self level)"

text \<open>The inner loop over \<^verbatim>\<open>col\<close>, with the running count \<^verbatim>\<open>processed_tiles\<close>.\<close>

fun cols_loop ::
  "env \<Rightarrow> generator \<Rightarrow> image \<Rightarrow> string \<Rightarrow> int \<Rightarrow> int \<Rightarrow> int \<Rightarrow> int \<Rightarrow> int list \<Rightarrow> int \<Rightarrow> int io"
where
  "cols_loop en self level_img level_dir lw lh total_in_level row [] processed = io_return processed"
| "cols_loop en self level_img level_dir lw lh total_in_level row (col # cs) processed =
     io_bind (save_tile en self level_img level_dir col row lw lh)
       (\<lambda>_. io_bind (if (processed + 1) mod 50 = 0 \<or> processed + 1 = total_in_level
                     then print (ProgressLine (processed + 1) total_in_level) else io_return ())
          (\<lambda>_. cols_loop en self level_img level_dir lw lh total_in_level row cs (processed + 1)))"

text \<open>The outer loop over \<^verbatim>\<open>row\<close>.\<close>

fun rows_loop ::
  "env \<Rightarrow> generator \<Rightarrow> image \<Rightarrow> string \<Rightarrow> int \<Rightarrow> int \<Rightarrow> int \<Rightarrow> int \<Rightarrow> int list \<Rightarrow> int \<Rightarrow> int io"
where
  "rows_loop en self level_img level_dir lw lh total_in_level cols [] processed = io_return processed"
| "rows_loop en self level_img level_dir lw lh total_in_level cols (row # rs) processed =
     io_bind (cols_loop en self level_img level_dir lw lh total_in_level row (range_py cols) processed)
       (\<lambda>processed. rows_loop en self level_img level_dir lw lh total_in_level cols rs processed)"

definition level_dir_of :: "generator \<Rightarrow> int \<Rightarrow> string" where
  "level_dir_of self level = path_join (tiles_dir self) (str_int level)"

definition generate_level :: "env \<Rightarrow> generator \<Rightarrow> image \<Rightarrow> int \<Rightarrow> int \<Rightarrow> int \<Rightarrow> int io" where
  "generate_level en self original_img level orig_width orig_height =
     (let lw = level_width self level orig_width;
          lh = level_height self level orig_height
      in io_bind (if level = max_level self then io_return original_img
                  else resize en original_img (lw, lh))
        (\<lambda>level_img. io_bind (io_lift (ceil_truediv (of_int lw) (of_int (tile_size self))))
        (\<lambda>cols. io_bind (io_lift (ceil_truediv (of_int lh) (of_int (tile_size self))))
        (\<lambda>rows. io_bind (print (LevelLine level lw lh cols rows (cols * rows)))
        (\<lambda>_. io_bind (call en (MakeDirs (level_dir_of self level)))
        (\<lambda>_. io_bind (rows_loop en self level_img (level_dir_of self level) lw lh (cols * rows)
                        cols (range_py rows) 0)
        (\<lambda>_. io_bind (if cols * rows > 0 then print EmptyLine else io_return ())
        (\<lambda>_. io_return (cols * rows)))))))))"

subsection \<open>\<^verbatim>\<open>_create_dzi_descriptor\<close>\<close>

definition dzi_content :: "generator \<Rightarrow> int \<Rightarrow> int \<Rightarrow> string" where
  "dzi_content self width height =
     ''<?xml version='' @ [dquote] @ ''1.0'' @ [dquote] @ '' encoding='' @ [dquote] @ ''UTF-8''
       @ [dquote] @ ''?>'' @ [newline]
     @ ''<Image xmlns='' @ [dquote] @ ''http://schemas.microsoft.com/deepzoom/2008'' @ [dquote]
       @ [newline]
     @ ''       Format='' @ [dquote] @ format self @ [dquote] @ [newline]
     @ ''       Overlap='' @ [dquote] @ str_int (overlap self) @ [dquote] @ [newline]
     @ ''       TileSize='' @ [dquote] @ str_int (tile_size self) @ [dquote] @ ''>'' @ [newline]
     @ ''    <Size Height='' @ [dquote] @ str_int height @ [dquote]
       @ '' Width='' @ [dquote] @ str_int width @ [dquote] @ ''/>'' @ [newline]
     @ ''    <Sources>'' @ [newline]
     @ ''        <TileGroup Url='' @ [dquote] @ basename (tiles_dir self) @ ''/'' @ [dquote]
       @ '' />'' @ [newline]
     @ ''    </Sources>'' @ [newline]
     @ ''</Image>''"

definition create_dzi_descriptor :: "env \<Rightarrow> generator \<Rightarrow> int \<Rightarrow> int \<Rightarrow> unit io" where
  "create_dzi_descriptor en self width height =
     io_bind (call en (WriteFile (dzi_file self) (dzi_content self width height)))
       (\<lambda>_. print (CreatedLine (dzi_file self)))"

subsection \<open>\<^verbatim>\<open>generate\<close>\<close>

text \<open>Lines 51 to 58: the colour mode is brought to RGB or L before anything is tiled.\<close>

definition normalize_mode :: "env \<Rightarrow> image \<Rightarrow> image io" where
  "normalize_mode en img =
     (if mode img \<notin> {''RGB'', ''RGBA'', ''L''} then
        io_bind (print (ConvertingLine (mode img))) (\<lambda>_. convert en img ''RGB'')
      else if mode img = ''RGBA'' then
        io_bind (print CompositingLine)
          (\<lambda>_. io_bind (image_new en ''RGB'' (size_px img) [0, 0, 0])
          (\<lambda>background. io_bind (split_bands en img)
          (\<lambda>bands. io_bind (io_lift (index bands 3))
          (\<lambda>alpha. paste en background img alpha))))
      else io_return img)"

text \<open>Lines 64 and 65.\<close>

definition compute_max_level :: "int \<Rightarrow> int \<Rightarrow> exc + int" where
  "compute_max_level width height =
     (let max_dimension = max width height
      in case math_log2 (of_int max_dimension) of
           Inl e \<Rightarrow> Inl e
         | Inr l \<Rightarrow> Inr (math_ceil l))"

text \<open>The loop \<^verbatim>\<open>for level in range(self.max_level + 1)\<close> with the sum \<^verbatim>\<open>total_tiles\<close>.\<close>

fun levels_loop ::
  "env \<Rightarrow> generator \<Rightarrow> image \<Rightarrow> int \<Rightarrow> int \<Rightarrow> int list \<Rightarrow> int \<Rightarrow> int io" where
  "levels_loop en self img width height [] total_tiles = io_return total_tiles"
| "levels_loop en self img width height (level # ls) total_tiles =
     io_bind (generate_level en self img level width height)
       (\<lambda>tiles_in_level. levels_loop en self img width height ls (total_tiles + tiles_in_level))"

text \<open>Lines 44 to 94: what \<^verbatim>\<open>generate\<close> does once the image is open.\<close>

definition generate_opened :: "env \<Rightarrow> generator \<Rightarrow> image \<Rightarrow> (bool \<times> generator) io" where
  "generate_opened en self img0 =
     (case size_px img0 of (width, height) \<Rightarrow>
        io_bind (print (ImageSizeLine width height))
        (\<lambda>_. io_bind (print (ModeLine (mode img0)))
        (\<lambda>_. io_bind (normalize_mode en img0)
        (\<lambda>img. io_bind (io_lift (compute_max_level width height))
        (\<lambda>ml. let self = self\<lparr>max_level := ml\<rparr>
          in io_bind (print (MaxZoomLine (max_level self)))
        (\<lambda>_. io_bind (print (GeneratingLine (max_level self + 1) (max_level self)))
        (\<lambda>_. io_bind (print (TileSizeLine (tile_size self)))
        (\<lambda>_. io_bind (print (OverlapLine (overlap self)))
        (\<lambda>_. io_bind (call en (MakeDirs (tiles_dir self)))
        (\<lambda>_. io_bind (levels_loop en self img width height (range_py (max_level self + 1)) 0)
        (\<lambda>total_tiles. io_bind (create_dzi_descriptor en self width height)
        (\<lambda>_. io_bind (print EmptyLine)
        (\<lambda>_. io_bind (print Rule60)
        (\<lambda>_. io_bind (print CompleteLine)
        (\<lambda>_. io_bind (print TimeLine)
        (\<lambda>_. io_bind (print (TotalTilesLine total_tiles))
        (\<lambda>_. io_bind (print (DziFileLine (dzi_file self)))
        (\<lambda>_. io_bind (print (TilesDirLine (tiles_dir self)))
        (\<lambda>_. io_bind (print Rule60)
        (\<lambda>_. io_return (True, self)))))))))))))))))))))"

text \<open>
  \<^verbatim>\<open>generate\<close>: the banner, the guarded \<^verbatim>\<open>Image.open\<close> (a failure is printed and answered
  with \<^verbatim>\<open>False\<close>), then the rest. The result carries the object with its \<^verbatim>\<open>max_level\<close>.
\<close>

definition generate :: "env \<Rightarrow> generator \<Rightarrow> (bool \<times> generator) io" where
  "generate en self =
     io_bind (print Rule60)
     (\<lambda>_. io_bind (print TitleLine)
     (\<lambda>_. io_bind (print Rule60)
     (\<lambda>_. io_bind (print (OpeningLine (image_path self)))
     (\<lambda>_. io_bind (io_try (io_bind (image_open en (image_path self)) (\<lambda>i. io_return (Some i)))
                     (\<lambda>e. io_bind (print (ErrorOpeningLine e)) (\<lambda>_. io_return None)))
     (\<lambda>opened. case opened of
         None \<Rightarrow> io_return (False, self)
       | Some img0 \<Rightarrow> generate_opened en self img0)))))"

section \<open>Definitions that follow the specification's wording\<close>

text \<open>Clamping a coordinate to the interval from \<open>lo\<close> to \<open>hi\<close>.\<close>

definition clamp :: "int \<Rightarrow> int \<Rightarrow> int \<Rightarrow> int" where
  "clamp lo hi x = max lo (min hi x)"

section \<open>Reading a trace\<close>

text \<open>The paths of the tiles handed to \<^verbatim>\<open>save\<close>, in order.\<close>

fun save_paths :: "event list \<Rightarrow> string list" where
  "save_paths [] = []"
| "save_paths (ImageSave t p opts # evs) = p # save_paths evs"
| "save_paths (ev # evs) = save_paths evs"

text \<open>The files written with \<^verbatim>\<open>open(..., 'w')\<close>: path and content, in order.\<close>

fun written_files :: "event list \<Rightarrow> (string \<times> string) list" where
  "written_files [] = []"
| "written_files (WriteFile p c # evs) = (p, c) # written_files evs"
| "written_files (ev # evs) = written_files evs"

text \<open>The level headers printed: level, width, height, columns, rows.\<close>

fun level_lines :: "event list \<Rightarrow> (int \<times> int \<times> int \<times> int \<times> int) list" where
  "level_lines [] = []"
| "level_lines (Stdout (LevelLine l w h c r t) # evs) = (l, w, h, c, r) # level_lines evs"
| "level_lines (ev # evs) = level_lines evs"

text \<open>What was printed.\<close>

fun stdout_of :: "event list \<Rightarrow> message list" where
  "stdout_of [] = []"
| "stdout_of (Stdout m # evs) = m # stdout_of evs"
| "stdout_of (ev # evs) = stdout_of evs"

text \<open>A run with some calls made before it.\<close>

definition emit :: "event list \<Rightarrow> 'a io \<Rightarrow> 'a io" where
  "emit tr m = (tr @ fst m, snd m)"

text \<open>
  A run is well behaved when a call that raises is the last thing it does and its exception
  is the run's outcome.
\<close>

definition ok :: "env \<Rightarrow> 'a io \<Rightarrow> bool" where
  "ok en m \<longleftrightarrow>
     (\<forall>ev \<in> set (butlast (fst m)). raises en ev = None)
   \<and> (fst m \<noteq> [] \<longrightarrow>
        (case raises en (last (fst m)) of Some e \<Rightarrow> snd m = Inl e | None \<Rightarrow> True))"

text \<open>The tiles of a grid in the order of the two loops: row by row.\<close>

definition grid_coords :: "int \<Rightarrow> int \<Rightarrow> (int \<times> int) list" where
  "grid_coords cols rows = concat (map (\<lambda>row. map (\<lambda>col. (col, row)) (range_py cols)) (range_py rows))"

definition tile_path :: "generator \<Rightarrow> int \<Rightarrow> int \<times> int \<Rightarrow> string" where
  "tile_path self level cr =
     path_join (level_dir_of self level) (tile_filename self (fst cr) (snd cr))"

text \<open>
  \<^verbatim>\<open>math.ceil(math.log2(n))\<close> for \<open>n \<ge> 1\<close>, computed on integers by halving (rounding up).
\<close>

fun clog2 :: "nat \<Rightarrow> nat" where
  "clog2 n = (if n \<le> 1 then 0 else clog2 ((n - 1) div 2 + 1) + 1)"

declare clog2.simps [simp del]

text \<open>Every call of a run satisfies \<open>P\<close>.\<close>

definition only :: "(event \<Rightarrow> bool) \<Rightarrow> 'a io \<Rightarrow> bool" where
  "only P m \<longleftrightarrow> (\<forall>ev \<in> set (fst m). P ev)"

text \<open>The calls that cutting and saving one tile can make, and the progress line.\<close>

fun tile_event :: "event \<Rightarrow> bool" where
  "tile_event (ImageCrop i b) = True"
| "tile_event (ImageConvert i m) = True"
| "tile_event (ImageSave t p opts) = True"
| "tile_event (Stdout (ProgressLine p n)) = True"
| "tile_event ev = False"

text \<open>The calls that generating one level can make.\<close>

fun level_event :: "event \<Rightarrow> bool" where
  "level_event (ImageResize i sz) = True"
| "level_event (MakeDirs p) = True"
| "level_event (Stdout (LevelLine l w h c r t)) = True"
| "level_event (Stdout EmptyLine) = True"
| "level_event ev = tile_event ev"

text \<open>The tile grid of a level: columns and rows as quotients rounded up.\<close>

definition planned_cols :: "generator \<Rightarrow> int \<Rightarrow> int \<Rightarrow> int" where
  "planned_cols self level w =
     \<lceil>real_of_int (level_width self level w) / real_of_int (tile_size self)\<rceil>"

definition planned_rows :: "generator \<Rightarrow> int \<Rightarrow> int \<Rightarrow> int" where
  "planned_rows self level h =
     \<lceil>real_of_int (level_height self level h) / real_of_int (tile_size self)\<rceil>"

text \<open>The plan of a level and the tile files of a list of levels, in the order of the loops.\<close>

definition level_plan :: "generator \<Rightarrow> int \<Rightarrow> int \<Rightarrow> int \<Rightarrow> int \<times> int \<times> int \<times> int \<times> int" where
  "level_plan self w h level =
     (level, level_width self level w, level_height self level h,
      planned_cols self level w, planned_rows self level h)"

definition planned_tiles :: "generator \<Rightarrow> int \<Rightarrow> int \<Rightarrow> int list \<Rightarrow> string list" where
  "planned_tiles self w h levels =
     concat (map (\<lambda>level. map (tile_path self level)
        (grid_coords (planned_cols self level w) (planned_rows self level h))) levels)"

lemma io_bind_emit: "io_bind (emit a m) f = emit a (io_bind m f)"
  by (simp add: io_bind_def emit_def split: sum.splits)

text \<open>The calls that the colour-mode normalisation can make.\<close>

fun norm_event :: "event \<Rightarrow> bool" where
  "norm_event (ImageConvert i m) = True"
| "norm_event (ImageNew m sz c) = True"
| "norm_event (ImageSplit i) = True"
| "norm_event (ImagePaste d s m) = True"
| "norm_event (Stdout (ConvertingLine m)) = True"
| "norm_event (Stdout CompositingLine) = True"
| "norm_event ev = False"

text \<open>The trace of a run up to the level loop, and after the descriptor.\<close>

definition prologue :: "env \<Rightarrow> generator \<Rightarrow> image \<Rightarrow> int \<Rightarrow> event list" where
  "prologue en self img0 ml =
     [Stdout (ImageSizeLine (fst (size_px img0)) (snd (size_px img0))), Stdout (ModeLine (mode img0))]
     @ fst (normalize_mode en img0)
     @ [Stdout (MaxZoomLine ml), Stdout (GeneratingLine (ml + 1) ml),
        Stdout (TileSizeLine (tile_size self)), Stdout (OverlapLine (overlap self)),
        MakeDirs (tiles_dir self)]"

definition epilogue :: "generator \<Rightarrow> int \<Rightarrow> event list" where
  "epilogue self total_tiles =
     [Stdout (CreatedLine (dzi_file self)), Stdout EmptyLine, Stdout Rule60, Stdout CompleteLine,
      Stdout TimeLine, Stdout (TotalTilesLine total_tiles), Stdout (DziFileLine (dzi_file self)),
      Stdout (TilesDirLine (tiles_dir self)), Stdout Rule60]"

text \<open>The opening lines of a run and the call that opens the source.\<close>

definition banner :: "generator \<Rightarrow> event list" where
  "banner self =
     [Stdout Rule60, Stdout TitleLine, Stdout Rule60, Stdout (OpeningLine (image_path self)),
      ImageOpen (image_path self)]"


section \<open>An environment for examples\<close>

text \<open>
  No call fails; every path decodes to an image of the given size and mode; conversion keeps
  the first three bands; resampling repeats one pixel.
\<close>

definition quiet_env :: "int \<times> int \<Rightarrow> string \<Rightarrow> env" where
  "quiet_env sz m =
     \<lparr>fault = (\<lambda>_. None),
      file_image = (\<lambda>_. \<lparr>mode = m, size_px = sz, pixels = (\<lambda>_. [0, 0, 0, 0])\<rparr>),
      convert_px = (\<lambda>i _ p. take 3 (pixels i p)),
      resample_px = (\<lambda>i _ _. pixels i (0, 0))\<rparr>"

text \<open>
  As \<open>quiet_env\<close>, but saving a tile to \<open>path\<close> raises an \<^verbatim>\<open>OSError\<close>.
\<close>

definition failing_env :: "int \<times> int \<Rightarrow> string \<Rightarrow> string \<Rightarrow> env" where
  "failing_env sz m path =
     (quiet_env sz m)\<lparr>fault :=
        (\<lambda>ev. case ev of ImageSave t p opts \<Rightarrow> if p = path then Some OSError else None
               | _ \<Rightarrow> None)\<rparr>"

section \<open>Traces and well-behaved runs\<close>

lemma save_paths_append [simp]: "save_paths (a @ b) = save_paths a @ save_paths b"
  by (induction a rule: save_paths.induct) simp_all

lemma written_files_append [simp]: "written_files (a @ b) = written_files a @ written_files b"
  by (induction a rule: written_files.induct) simp_all

lemma level_lines_append [simp]: "level_lines (a @ b) = level_lines a @ level_lines b"
  by (induction a rule: level_lines.induct) simp_all

lemma stdout_of_append [simp]: "stdout_of (a @ b) = stdout_of a @ stdout_of b"
  by (induction a rule: stdout_of.induct) simp_all

lemma raises_Stdout [simp]: "raises en (Stdout m) = None"
  by (simp add: raises_def)


lemma emit_pair [simp]: "emit a (tr, r) = (a @ tr, r)"
  by (simp add: emit_def)

lemma emit_emit [simp]: "emit a (emit b m) = emit (a @ b) m"
  by (simp add: emit_def)

lemma fst_emit [simp]: "fst (emit a m) = a @ fst m"
  by (simp add: emit_def)

lemma snd_emit [simp]: "snd (emit a m) = snd m"
  by (simp add: emit_def)

lemma io_bind_print [simp]: "io_bind (print m) f = emit [Stdout m] (f ())"
  by (simp add: io_bind_def print_def emit_def)

lemma io_bind_call:
  "io_bind (call en ev) f =
     (case raises en ev of None \<Rightarrow> emit [ev] (f ()) | Some e \<Rightarrow> ([ev], Inl e))"
  by (simp add: io_bind_def call_def emit_def split: option.splits)

lemma io_bind_call_None: "raises en ev = None \<Longrightarrow> io_bind (call en ev) f = emit [ev] (f ())"
  by (simp add: io_bind_call)

lemma io_bind_call_Some: "raises en ev = Some e \<Longrightarrow> io_bind (call en ev) f = ([ev], Inl e)"
  by (simp add: io_bind_call)

lemma io_bind_lift:
  "io_bind (io_lift r) f = (case r of Inl e \<Rightarrow> ([], Inl e) | Inr x \<Rightarrow> f x)"
  by (simp add: io_bind_def io_lift_def split: sum.splits)

lemma snd_io_bind_Inr:
  "snd (io_bind m f) = Inr y \<longleftrightarrow> (\<exists>x. snd m = Inr x \<and> snd (f x) = Inr y)"
  by (auto simp: io_bind_def split: sum.splits)

lemma io_bind_Inr: "snd m = Inr x \<Longrightarrow> io_bind m f = (fst m @ fst (f x), snd (f x))"
  by (simp add: io_bind_def)

lemma io_bind_Inr_emit: "snd m = Inr x \<Longrightarrow> io_bind m f = emit (fst m) (f x)"
  by (simp add: io_bind_def emit_def)

lemma io_bind_Inl: "snd m = Inl e \<Longrightarrow> io_bind m f = (fst m, Inl e)"
  by (simp add: io_bind_def)

lemma ok_all:
  assumes "ok en m" "snd m = Inr x"
  shows "\<forall>ev \<in> set (fst m). raises en ev = None"
proof (cases "fst m = []")
  case True then show ?thesis by simp
next
  case False
  then have "fst m = butlast (fst m) @ [last (fst m)]" by simp
  moreover have "raises en (last (fst m)) = None"
    using assms False by (auto simp: ok_def split: option.splits)
  moreover have "\<forall>ev \<in> set (butlast (fst m)). raises en ev = None"
    using assms by (simp add: ok_def)
  ultimately show ?thesis
    by (metis Un_iff empty_iff empty_set insert_iff list.simps(15) set_append)
qed

lemma ok_bind:
  assumes "ok en m" "\<And>x. snd m = Inr x \<Longrightarrow> ok en (f x)"
  shows "ok en (io_bind m f)"
proof (cases "snd m")
  case (Inl e)
  then show ?thesis using assms(1) by (auto simp: io_bind_Inl ok_def split: option.splits)
next
  case (Inr x)
  have a: "\<forall>ev \<in> set (fst m). raises en ev = None" using ok_all[OF assms(1) Inr] .
  have b: "ok en (f x)" using assms(2)[OF Inr] .
  show ?thesis
  proof (cases "fst (f x) = []")
    case True
    then show ?thesis using a Inr
      by (auto simp: io_bind_Inr ok_def dest: in_set_butlastD split: option.splits)
  next
    case False
    then show ?thesis using a b Inr
      by (auto simp: io_bind_Inr ok_def butlast_append split: option.splits)
  qed
qed

lemma ok_return [simp]: "ok en (io_return x)"
  by (simp add: ok_def io_return_def)

lemma ok_lift [simp]: "ok en (io_lift r)"
  by (simp add: ok_def io_lift_def)

lemma ok_call [simp]: "ok en (call en ev)"
  by (simp add: ok_def call_def split: option.splits)

lemma ok_print [simp]: "ok en (print m)"
  by (simp add: ok_def print_def)

lemma ok_if: "(c \<Longrightarrow> ok en a) \<Longrightarrow> (\<not> c \<Longrightarrow> ok en b) \<Longrightarrow> ok en (if c then a else b)"
  by simp

lemmas ok_intros = ok_bind ok_if ok_return ok_lift ok_call ok_print

lemma ok_convert [simp]: "ok en (convert en img m)"
  unfolding convert_def by (intro ok_intros)

lemma ok_resize [simp]: "ok en (resize en img sz)"
  unfolding resize_def by (intro ok_intros)

lemma ok_crop [simp]: "ok en (crop en img b)"
  unfolding crop_def by (intro ok_intros)

lemma ok_image_new [simp]: "ok en (image_new en m sz c)"
  unfolding image_new_def by (intro ok_intros)

lemma ok_split_bands [simp]: "ok en (split_bands en img)"
  unfolding split_bands_def by (intro ok_intros)

lemma ok_paste [simp]: "ok en (paste en d s m)"
  unfolding paste_def by (intro ok_intros)

lemma ok_save_tile [simp]: "ok en (save_tile en self img level_dir col row lw lh)"
  unfolding save_tile_def Let_def by (intro ok_intros ok_crop ok_convert)

lemma ok_cols_loop [simp]:
  "ok en (cols_loop en self img level_dir lw lh n row cs processed)"
proof (induction cs arbitrary: processed)
  case Nil
  show ?case by (simp only: cols_loop.simps ok_return)
next
  case (Cons c cs)
  show ?case
    unfolding cols_loop.simps by (intro ok_intros ok_save_tile Cons.IH)
qed

lemma ok_rows_loop [simp]:
  "ok en (rows_loop en self img level_dir lw lh n cols rs processed)"
proof (induction rs arbitrary: processed)
  case Nil
  show ?case by (simp only: rows_loop.simps ok_return)
next
  case (Cons r rs)
  show ?case
    unfolding rows_loop.simps by (intro ok_intros ok_cols_loop Cons.IH)
qed

lemma ok_generate_level [simp]: "ok en (generate_level en self img level w h)"
  unfolding generate_level_def Let_def by (intro ok_intros ok_resize ok_rows_loop)

lemma ok_levels_loop [simp]: "ok en (levels_loop en self img w h ls n)"
proof (induction ls arbitrary: n)
  case Nil
  show ?case by (simp only: levels_loop.simps ok_return)
next
  case (Cons l ls)
  show ?case
    unfolding levels_loop.simps by (intro ok_intros ok_generate_level Cons.IH)
qed

lemma ok_normalize_mode [simp]: "ok en (normalize_mode en img)"
  unfolding normalize_mode_def
  by (intro ok_intros ok_convert ok_image_new ok_split_bands ok_paste)

lemma ok_create_dzi_descriptor [simp]: "ok en (create_dzi_descriptor en self w h)"
  unfolding create_dzi_descriptor_def by (intro ok_intros)

lemma ok_generate_opened [simp]: "ok en (generate_opened en self img0)"
  unfolding generate_opened_def Let_def
  by (cases "size_px img0")
     (simp only: prod.case, intro ok_intros ok_normalize_mode ok_levels_loop ok_create_dzi_descriptor)

section \<open>Arithmetic of the planner\<close>

lemma ceil_truediv_pos:
  "b \<noteq> 0 \<Longrightarrow> ceil_truediv (of_int a) (of_int b) = Inr \<lceil>real_of_int a / real_of_int b\<rceil>"
  by (simp add: ceil_truediv_def truediv_def math_ceil_def)

lemma ceil_truediv_zero: "ceil_truediv a 0 = Inl ZeroDivisionError"
  by (simp add: ceil_truediv_def truediv_def)

lemma in_grid_less:
  assumes "0 < ts" "c < \<lceil>real_of_int l / real_of_int ts\<rceil>"
  shows "c * ts < l"
proof -
  have "real_of_int c < real_of_int l / real_of_int ts"
    using assms(2) by (simp add: less_ceiling_iff)
  then have "real_of_int c * real_of_int ts < real_of_int l"
    using assms(1) by (simp add: pos_less_divide_eq)
  then have "real_of_int (c * ts) < real_of_int l" by simp
  then show ?thesis by linarith
qed

lemma clog2_correct: "1 \<le> n \<Longrightarrow> \<lceil>log 2 (real n)\<rceil> = int (clog2 n)"
proof (induction n rule: clog2.induct)
  case (1 n)
  show ?case
  proof (cases "n \<le> 1")
    case True
    with "1.prems" have "n = 1" by simp
    then show ?thesis by (simp add: clog2.simps)
  next
    case False
    then have n2: "2 \<le> n" by simp
    have "1 \<le> (n - 1) div 2 + 1" by simp
    then have ih: "\<lceil>log 2 (real ((n - 1) div 2 + 1))\<rceil> = int (clog2 ((n - 1) div 2 + 1))"
      using "1.IH" False by blast
    show ?thesis
      using ceiling_log2_div2[OF n2] ih False by (subst clog2.simps) simp
  qed
qed

lemma compute_max_level_code:
  "compute_max_level w h =
     (if max w h \<le> 0 then Inl ValueError else Inr (int (clog2 (nat (max w h)))))"
proof (cases "max w h \<le> 0")
  case True
  then show ?thesis by (simp add: compute_max_level_def math_log2_def Let_def)
next
  case False
  then have "1 \<le> nat (max w h)" by arith
  from clog2_correct[OF this] False
  have "\<lceil>log 2 (real_of_int (max w h))\<rceil> = int (clog2 (nat (max w h)))"
    by (simp add: max_def split: if_splits)
  with False show ?thesis
    by (simp add: compute_max_level_def math_log2_def Let_def math_ceil_def)
qed


lemma compute_max_level_nonneg: "compute_max_level w h = Inr ml \<Longrightarrow> 0 \<le> ml"
  by (simp add: compute_max_level_code split: if_splits)

lemma level_width_top [simp]: "level_width self (max_level self) w = w"
  by (simp add: level_width_def scale_factor_def math_ceil_def)

lemma level_height_top [simp]: "level_height self (max_level self) h = h"
  by (simp add: level_height_def scale_factor_def math_ceil_def)

lemma scaled_eq:
  "l \<le> ml \<Longrightarrow> math_ceil (of_int w / 2 powi (ml - l)) = \<lceil>real_of_int w / 2 ^ nat (ml - l)\<rceil>"
  by (simp add: math_ceil_def power_int_def)

lemma scaled_div:
  "l \<le> ml \<Longrightarrow> math_ceil (of_int w / 2 powi (ml - l)) = - ((- w) div 2 ^ nat (ml - l))"
proof -
  assume "l \<le> ml"
  have "\<lceil>real_of_int w / 2 ^ nat (ml - l)\<rceil> = \<lceil>real_of_int w / real_of_int (2 ^ nat (ml - l))\<rceil>"
    by simp
  also have "\<dots> = - ((- w) div 2 ^ nat (ml - l))"
    by (rule ceiling_divide_eq_div)
  finally show ?thesis using \<open>l \<le> ml\<close> by (simp add: scaled_eq)
qed


section \<open>Which calls a part of the run can make\<close>

lemma only_bind:
  "only P m \<Longrightarrow> (\<And>x. snd m = Inr x \<Longrightarrow> only P (f x)) \<Longrightarrow> only P (io_bind m f)"
  by (auto simp: only_def io_bind_def split: sum.splits)

lemma only_return [simp]: "only P (io_return x)"
  by (simp add: only_def io_return_def)

lemma only_lift [simp]: "only P (io_lift r)"
  by (simp add: only_def io_lift_def)

lemma only_call: "P ev \<Longrightarrow> only P (call en ev)"
  by (simp add: only_def call_def)

lemma only_print: "P (Stdout m) \<Longrightarrow> only P (print m)"
  by (simp add: only_def print_def)

lemma only_if: "(c \<Longrightarrow> only P a) \<Longrightarrow> (\<not> c \<Longrightarrow> only P b) \<Longrightarrow> only P (if c then a else b)"
  by simp

lemma only_mono: "only P m \<Longrightarrow> (\<And>ev. P ev \<Longrightarrow> Q ev) \<Longrightarrow> only Q m"
  by (auto simp: only_def)

lemmas only_intros = only_bind only_if only_return only_lift

lemma only_save_tile: "only tile_event (save_tile en self img level_dir col row lw lh)"
  unfolding save_tile_def Let_def crop_def convert_def
  by (intro only_intros only_call) simp_all

lemma only_cols_loop: "only tile_event (cols_loop en self img level_dir lw lh n row cs processed)"
proof (induction cs arbitrary: processed)
  case Nil
  show ?case by (simp only: cols_loop.simps only_return)
next
  case (Cons c cs)
  show ?case
    unfolding cols_loop.simps
    by (intro only_intros only_save_tile only_print Cons.IH) simp
qed

lemma only_rows_loop: "only tile_event (rows_loop en self img level_dir lw lh n cols rs processed)"
proof (induction rs arbitrary: processed)
  case Nil
  show ?case by (simp only: rows_loop.simps only_return)
next
  case (Cons r rs)
  show ?case
    unfolding rows_loop.simps by (intro only_intros only_cols_loop Cons.IH)
qed

lemma tile_event_level: "tile_event ev \<Longrightarrow> level_event ev"
  by (cases ev rule: level_event.cases) simp_all

lemma only_rows_loop_level:
  "only level_event (rows_loop en self img level_dir lw lh n cols rs processed)"
  by (rule only_mono[OF only_rows_loop tile_event_level])

lemma only_generate_level: "only level_event (generate_level en self img level w h)"
  unfolding generate_level_def Let_def resize_def
  by (intro only_intros only_call only_print only_rows_loop_level) simp_all

lemma only_levels_loop: "only level_event (levels_loop en self img w h ls n)"
proof (induction ls arbitrary: n)
  case Nil
  show ?case by (simp only: levels_loop.simps only_return)
next
  case (Cons l ls)
  show ?case
    unfolding levels_loop.simps by (intro only_intros only_generate_level Cons.IH)
qed

lemma tile_event_proj:
  "\<forall>ev \<in> set tr. tile_event ev \<Longrightarrow> written_files tr = [] \<and> level_lines tr = []"
  by (induction tr rule: level_lines.induct) simp_all

lemma level_event_written: "\<forall>ev \<in> set tr. level_event ev \<Longrightarrow> written_files tr = []"
  by (induction tr rule: written_files.induct) simp_all

section \<open>Successful loops\<close>

lemma save_tile_success:
  "snd (save_tile en self img level_dir col row lw lh) = Inr u \<Longrightarrow>
     save_paths (fst (save_tile en self img level_dir col row lw lh))
       = [path_join level_dir (tile_filename self col row)]"
  by (auto simp: save_tile_def Let_def crop_def convert_def io_bind_def call_def io_return_def
           split: if_splits option.splits sum.splits)

lemma cols_loop_success:
  "snd (cols_loop en self img level_dir lw lh n row cs processed) = Inr p' \<Longrightarrow>
     save_paths (fst (cols_loop en self img level_dir lw lh n row cs processed))
       = map (\<lambda>col. path_join level_dir (tile_filename self col row)) cs
   \<and> p' = processed + int (length cs)"
proof (induction cs arbitrary: processed)
  case Nil
  then show ?case by (simp add: io_return_def)
next
  case (Cons c cs)
  let ?st = "save_tile en self img level_dir c row lw lh"
  let ?pr = "if (processed + 1) mod 50 = 0 \<or> processed + 1 = n
             then print (ProgressLine (processed + 1) n) else io_return ()"
  let ?rest = "cols_loop en self img level_dir lw lh n row cs (processed + 1)"
  have eq: "cols_loop en self img level_dir lw lh n row (c # cs) processed
      = io_bind ?st (\<lambda>_. io_bind ?pr (\<lambda>_. ?rest))"
    by simp
  from Cons.prems obtain u where u: "snd ?st = Inr u" and r: "snd (io_bind ?pr (\<lambda>_. ?rest)) = Inr p'"
    unfolding eq snd_io_bind_Inr by blast
  have pr: "snd ?pr = Inr ()" "save_paths (fst ?pr) = []"
    by (simp_all add: print_def io_return_def)
  from r have r': "snd ?rest = Inr p'"
    unfolding snd_io_bind_Inr by blast
  have "fst (io_bind ?st (\<lambda>_. io_bind ?pr (\<lambda>_. ?rest))) = fst ?st @ fst ?pr @ fst ?rest"
    by (simp only: io_bind_Inr[OF u] io_bind_Inr[OF pr(1)] fst_conv)
  then show ?case
    unfolding eq using Cons.IH[OF r'] save_tile_success[OF u] pr(2) by simp
qed

lemma rows_loop_success:
  "snd (rows_loop en self img level_dir lw lh n cols rs processed) = Inr p' \<Longrightarrow>
     save_paths (fst (rows_loop en self img level_dir lw lh n cols rs processed))
       = concat (map (\<lambda>row. map (\<lambda>col. path_join level_dir (tile_filename self col row))
                              (range_py cols)) rs)"
proof (induction rs arbitrary: processed)
  case Nil
  then show ?case by (simp add: io_return_def)
next
  case (Cons r rs)
  let ?cl = "cols_loop en self img level_dir lw lh n r (range_py cols) processed"
  from Cons.prems obtain p1 where c: "snd ?cl = Inr p1"
    and r: "snd (rows_loop en self img level_dir lw lh n cols rs p1) = Inr p'"
    unfolding rows_loop.simps snd_io_bind_Inr by blast
  show ?case
    unfolding rows_loop.simps
    using cols_loop_success[OF c] Cons.IH[OF r] by (simp add: io_bind_Inr[OF c])
qed

section \<open>The structure of a run\<close>

lemma io_bind_succE:
  assumes "snd (io_bind m f) = Inr y"
  obtains x where "snd m = Inr x" "snd (f x) = Inr y" "fst (io_bind m f) = fst m @ fst (f x)"
  using assms by (auto simp: io_bind_def split: sum.splits)

lemma ceil_truediv_Inr:
  "ceil_truediv (of_int a) (of_int b) = Inr c \<longleftrightarrow> b \<noteq> 0 \<and> c = \<lceil>real_of_int a / real_of_int b\<rceil>"
  by (auto simp: ceil_truediv_def truediv_def math_ceil_def)

lemma generate_level_success:
  assumes "snd (generate_level en self img level w h) = Inr n"
  shows "tile_size self \<noteq> 0
    \<and> n = planned_cols self level w * planned_rows self level h
    \<and> level_lines (fst (generate_level en self img level w h))
        = [(level, level_width self level w, level_height self level h,
            planned_cols self level w, planned_rows self level h)]
    \<and> save_paths (fst (generate_level en self img level w h))
        = map (tile_path self level)
            (grid_coords (planned_cols self level w) (planned_rows self level h))"
proof -
  let ?lw = "level_width self level w" and ?lh = "level_height self level h"
  let ?A = "if level = max_level self then io_return img else resize en img (?lw, ?lh)"
  from assms obtain limg cols rows p u2 where
    a: "snd ?A = Inr limg"
    and c: "snd (io_lift (ceil_truediv (of_int ?lw) (of_int (tile_size self)))) = Inr cols"
    and r: "snd (io_lift (ceil_truediv (of_int ?lh) (of_int (tile_size self)))) = Inr rows"
    and m: "snd (call en (MakeDirs (level_dir_of self level))) = Inr u2"
    and l: "snd (rows_loop en self limg (level_dir_of self level) ?lw ?lh (cols * rows)
                  cols (range_py rows) 0) = Inr p"
    and n: "n = cols * rows"
    and tr: "fst (generate_level en self img level w h) =
        fst ?A @ [Stdout (LevelLine level ?lw ?lh cols rows (cols * rows))]
        @ [MakeDirs (level_dir_of self level)]
        @ fst (rows_loop en self limg (level_dir_of self level) ?lw ?lh (cols * rows)
                  cols (range_py rows) 0)
        @ fst (if cols * rows > 0 then print EmptyLine else io_return ())"
    unfolding generate_level_def Let_def
    apply (elim io_bind_succE)
    apply (simp add: io_lift_def print_def call_def io_return_def split: if_splits)
    done
  have c': "tile_size self \<noteq> 0" "cols = planned_cols self level w"
    using c by (simp_all add: io_lift_def ceil_truediv_Inr planned_cols_def)
  have r': "rows = planned_rows self level h"
    using r by (simp add: io_lift_def ceil_truediv_Inr planned_rows_def)
  have A: "save_paths (fst ?A) = []" "level_lines (fst ?A) = []"
    by (simp_all add: resize_def io_bind_call io_return_def split: option.splits)
  have E: "save_paths (fst (if cols * rows > 0 then print EmptyLine else io_return ())) = []"
      "level_lines (fst (if cols * rows > 0 then print EmptyLine else io_return ())) = []"
    by (simp_all add: print_def io_return_def)
  have L: "level_lines (fst (rows_loop en self limg (level_dir_of self level) ?lw ?lh
      (cols * rows) cols (range_py rows) 0)) = []"
    using tile_event_proj[OF only_rows_loop[unfolded only_def]] by simp
  have S: "save_paths (fst (rows_loop en self limg (level_dir_of self level) ?lw ?lh
      (cols * rows) cols (range_py rows) 0))
     = map (tile_path self level) (grid_coords cols rows)"
    unfolding rows_loop_success[OF l]
    by (simp add: grid_coords_def tile_path_def map_concat comp_def)
  have 1: "level_lines (fst (generate_level en self img level w h))
      = [(level, ?lw, ?lh, cols, rows)]"
    by (simp add: tr A E L)
  have 2: "save_paths (fst (generate_level en self img level w h))
      = map (tile_path self level) (grid_coords cols rows)"
    by (simp add: tr A E S)
  show ?thesis
    using 1 2 n c'(1) unfolding c'(2) r' by simp
qed

lemma io_bind_pair_Inl: "io_bind (tr, Inl e) f = (tr, Inl e)"
  by (simp add: io_bind_def)

lemma io_bind_pair_Inr: "io_bind (tr, Inr x) f = emit tr (f x)"
  by (simp add: io_bind_def emit_def)

lemma levels_loop_success:
  "snd (levels_loop en self img w h ls t) = Inr t' \<Longrightarrow>
     level_lines (fst (levels_loop en self img w h ls t)) = map (level_plan self w h) ls
   \<and> save_paths (fst (levels_loop en self img w h ls t)) = planned_tiles self w h ls
   \<and> (ls \<noteq> [] \<longrightarrow> tile_size self \<noteq> 0)"
proof (induction ls arbitrary: t)
  case Nil
  then show ?case by (simp add: io_return_def planned_tiles_def)
next
  case (Cons l ls)
  from Cons.prems obtain n where g: "snd (generate_level en self img l w h) = Inr n"
    and r: "snd (levels_loop en self img w h ls (t + n)) = Inr t'"
    unfolding levels_loop.simps snd_io_bind_Inr by blast
  show ?case
    unfolding levels_loop.simps
    using generate_level_success[OF g] Cons.IH[OF r]
    by (simp add: io_bind_Inr[OF g] planned_tiles_def level_plan_def)
qed

lemma written_levels_loop: "written_files (fst (levels_loop en self img w h ls t)) = []"
  using level_event_written[OF only_levels_loop[unfolded only_def]] .

lemma only_normalize_mode: "only norm_event (normalize_mode en img)"
  unfolding normalize_mode_def convert_def image_new_def split_bands_def paste_def
  by (intro only_intros only_call only_print) simp_all

lemma norm_event_proj:
  "\<forall>ev \<in> set tr. norm_event ev \<Longrightarrow>
     written_files tr = [] \<and> level_lines tr = [] \<and> save_paths tr = []"
  by (induction tr rule: level_lines.induct) simp_all

lemmas normalize_proj = norm_event_proj[OF only_normalize_mode[unfolded only_def]]

lemma generate_opened_cases:
  fixes en self img0
  defines "R \<equiv> generate_opened en self img0"
  defines "w \<equiv> fst (size_px img0)" and "h \<equiv> snd (size_px img0)"
  obtains
    (early) e where "snd R = Inl e" "written_files (fst R) = []" "save_paths (fst R) = []"
      "(snd (normalize_mode en img0) = Inl e
          \<and> fst R = [Stdout (ImageSizeLine w h), Stdout (ModeLine (mode img0))]
                @ fst (normalize_mode en img0))
       \<or> ((\<exists>img. snd (normalize_mode en img0) = Inr img) \<and> compute_max_level w h = Inl e
          \<and> fst R = [Stdout (ImageSizeLine w h), Stdout (ModeLine (mode img0))]
                @ fst (normalize_mode en img0))
       \<or> (\<exists>ml. compute_max_level w h = Inr ml \<and> (\<exists>img. snd (normalize_mode en img0) = Inr img)
          \<and> raises en (MakeDirs (tiles_dir self)) = Some e
          \<and> fst R = prologue en self img0 ml)"
  | (levels) e ml img where "snd R = Inl e" "written_files (fst R) = []"
      "compute_max_level w h = Inr ml" "snd (normalize_mode en img0) = Inr img"
      "fst R = prologue en self img0 ml
         @ fst (levels_loop en (self\<lparr>max_level := ml\<rparr>) img w h (range_py (ml + 1)) 0)"
      "snd (levels_loop en (self\<lparr>max_level := ml\<rparr>) img w h (range_py (ml + 1)) 0) = Inl e"
  | (written) ml img tot where
      "compute_max_level w h = Inr ml" "snd (normalize_mode en img0) = Inr img"
      "snd (levels_loop en (self\<lparr>max_level := ml\<rparr>) img w h (range_py (ml + 1)) 0) = Inr tot"
      "(snd R = Inr (True, self\<lparr>max_level := ml\<rparr>)
         \<and> raises en (WriteFile (dzi_file self) (dzi_content (self\<lparr>max_level := ml\<rparr>) w h)) = None
         \<and> fst R = prologue en self img0 ml
           @ fst (levels_loop en (self\<lparr>max_level := ml\<rparr>) img w h (range_py (ml + 1)) 0)
           @ WriteFile (dzi_file self) (dzi_content (self\<lparr>max_level := ml\<rparr>) w h)
             # epilogue self tot)
       \<or> (\<exists>e. snd R = Inl e
         \<and> raises en (WriteFile (dzi_file self) (dzi_content (self\<lparr>max_level := ml\<rparr>) w h)) = Some e
         \<and> fst R = prologue en self img0 ml
           @ fst (levels_loop en (self\<lparr>max_level := ml\<rparr>) img w h (range_py (ml + 1)) 0)
           @ [WriteFile (dzi_file self) (dzi_content (self\<lparr>max_level := ml\<rparr>) w h)])"
proof -
  have sz: "size_px img0 = (w, h)" by (simp add: w_def h_def)
  show thesis
  proof (cases "snd (normalize_mode en img0)")
    case (Inl e)
    then have "R = ([Stdout (ImageSizeLine w h), Stdout (ModeLine (mode img0))]
        @ fst (normalize_mode en img0), Inl e)"
      by (simp add: R_def generate_opened_def Let_def io_bind_emit io_bind_pair_Inl io_bind_pair_Inr sz io_bind_Inl)
    then show ?thesis using early[of e] normalize_proj[of en img0] Inl by simp
  next
    case (Inr img)
    note n = this
    show ?thesis
    proof (cases "compute_max_level w h")
      case (Inl e)
      then have "R = ([Stdout (ImageSizeLine w h), Stdout (ModeLine (mode img0))]
        @ fst (normalize_mode en img0), Inl e)"
        by (simp add: R_def generate_opened_def Let_def io_bind_emit io_bind_pair_Inl io_bind_pair_Inr sz io_bind_Inr_emit[OF n] io_bind_lift)
      then show ?thesis using early[of e] normalize_proj[of en img0] Inl n by simp
    next
      case (Inr ml)
      note m = this
      let ?g = "self\<lparr>max_level := ml\<rparr>"
      let ?L = "levels_loop en ?g img w h (range_py (ml + 1)) 0"
      show ?thesis
      proof (cases "raises en (MakeDirs (tiles_dir self))")
        case (Some e)
        then have "R = (prologue en self img0 ml, Inl e)"
          by (simp add: R_def generate_opened_def Let_def io_bind_emit io_bind_pair_Inl io_bind_pair_Inr sz io_bind_Inr_emit[OF n] io_bind_lift m
                io_bind_call prologue_def)
        then have "fst R = prologue en self img0 ml" "snd R = Inl e"
          by simp_all
        moreover have "written_files (prologue en self img0 ml) = []"
          "save_paths (prologue en self img0 ml) = []"
          using normalize_proj[of en img0] by (simp_all add: prologue_def)
        ultimately show ?thesis using early[of e] m n Some by simp
      next
        case None
        note d = this
        show ?thesis
        proof (cases "snd ?L")
          case (Inl e)
          then have "R = (prologue en self img0 ml @ fst ?L, Inl e)"
            by (simp add: R_def generate_opened_def Let_def io_bind_emit io_bind_pair_Inl io_bind_pair_Inr sz io_bind_Inr_emit[OF n] io_bind_lift m
                io_bind_call d prologue_def io_bind_Inl[OF Inl])
          then show ?thesis using levels[of e ml img] normalize_proj[of en img0] m n Inl
            by (simp add: prologue_def written_levels_loop)
        next
          case (Inr tot)
          note t = this
          let ?W = "WriteFile (dzi_file self) (dzi_content ?g w h)"
          show ?thesis
          proof (cases "raises en ?W")
            case None
            then have "R = (prologue en self img0 ml @ fst ?L @ ?W # epilogue self tot,
                  Inr (True, ?g))"
              by (simp add: R_def generate_opened_def Let_def io_bind_emit io_bind_pair_Inl io_bind_pair_Inr sz io_bind_Inr_emit[OF n] io_bind_lift m
                io_bind_call d prologue_def io_bind_Inr_emit[OF t]
                create_dzi_descriptor_def epilogue_def io_return_def)
            then show ?thesis using written[of ml img tot] m n t None by simp
          next
            case (Some e)
            then have "R = (prologue en self img0 ml @ fst ?L @ [?W], Inl e)"
              by (simp add: R_def generate_opened_def Let_def io_bind_emit io_bind_pair_Inl io_bind_pair_Inr sz io_bind_Inr_emit[OF n] io_bind_lift m
                io_bind_call d prologue_def io_bind_Inr_emit[OF t]
                create_dzi_descriptor_def epilogue_def io_return_def)
            then show ?thesis using written[of ml img tot] m n t Some by simp
          qed
        qed
      qed
    qed
  qed
qed

lemma generate_eq:
  "generate en self =
     (case raises en (ImageOpen (image_path self)) of
        Some e \<Rightarrow> (banner self @ [Stdout (ErrorOpeningLine e)], Inr (False, self))
      | None \<Rightarrow> emit (banner self) (generate_opened en self (file_image en (image_path self))))"
  by (simp add: generate_def io_try_def image_open_def io_bind_call banner_def io_return_def
        io_bind_pair_Inr io_bind_pair_Inl emit_def split: option.splits)

lemma written_banner [simp]: "written_files (banner self) = []"
  and save_banner [simp]: "save_paths (banner self) = []"
  and lines_banner [simp]: "level_lines (banner self) = []"
  by (simp_all add: banner_def)

lemma written_prologue [simp]: "written_files (prologue en self img0 ml) = []"
  and save_prologue [simp]: "save_paths (prologue en self img0 ml) = []"
  and lines_prologue [simp]: "level_lines (prologue en self img0 ml) = []"
  using normalize_proj[of en img0] by (simp_all add: prologue_def)

lemma written_epilogue [simp]: "written_files (epilogue self n) = []"
  and save_epilogue [simp]: "save_paths (epilogue self n) = []"
  and lines_epilogue [simp]: "level_lines (epilogue self n) = []"
  by (simp_all add: epilogue_def)

text \<open>A successful run, taken apart.\<close>

lemma generate_success:
  assumes "snd (generate en self) = Inr (True, g)"
    and "size_px (file_image en (image_path self)) = (w, h)"
  obtains ml img tot where
    "raises en (ImageOpen (image_path self)) = None"
    "compute_max_level w h = Inr ml" "g = self\<lparr>max_level := ml\<rparr>"
    "snd (normalize_mode en (file_image en (image_path self))) = Inr img"
    "snd (levels_loop en g img w h (range_py (ml + 1)) 0) = Inr tot"
    "fst (generate en self) =
       banner self @ prologue en self (file_image en (image_path self)) ml
       @ fst (levels_loop en g img w h (range_py (ml + 1)) 0)
       @ WriteFile (dzi_file self) (dzi_content g w h) # epilogue self tot"
proof -
  let ?img0 = "file_image en (image_path self)"
  have op: "raises en (ImageOpen (image_path self)) = None"
    using assms(1) by (auto simp: generate_eq split: option.splits)
  then have g: "generate en self = emit (banner self) (generate_opened en self ?img0)"
    by (simp add: generate_eq)
  then have s: "snd (generate_opened en self ?img0) = Inr (True, g)"
    using assms(1) by simp
  have wh: "fst (size_px ?img0) = w" "snd (size_px ?img0) = h" using assms(2) by simp_all
  show thesis
  proof (cases rule: generate_opened_cases[of en self ?img0])
    case (early e)
    then show ?thesis using s by simp
  next
    case (levels e ml img)
    then show ?thesis using s by simp
  next
    case (written ml img tot)
    then show ?thesis using s op that[of ml img tot] unfolding wh g by auto
  qed
qed






lemma range_py_Suc: "0 \<le> n \<Longrightarrow> range_py (n + 1) = [0..n]"
  by (simp add: range_py_def)

lemmas run_simps = generate_eq generate_opened_def quiet_env_def init_def raises_def
      normalize_mode_def compute_max_level_code clog2.simps Let_def io_bind_lift io_bind_call
      range_py_def generate_level_def level_width_def level_height_def
      scale_factor_def math_ceil_def resize_def ceil_truediv_def truediv_def
      io_bind_pair_Inl io_bind_pair_Inr io_bind_emit level_dir_of_def save_tile_def crop_def
      crop_box_def lower_def lower_char_def convert_def create_dzi_descriptor_def io_return_def
      banner_def upto.simps path_join_def str_int_def str_nat.simps tile_filename_def

lemma ceiling_one_div_numeral: "\<lceil>(1::real) / numeral b\<rceil> = - ((- 1) div numeral b)"
  using ceiling_divide_eq_div[of 1 "numeral b"] by simp

lemma example_run:
  "snd (generate (quiet_env (2, 1) ''RGB'') (init ''a.png'' ''out'' 1 0 ''png'' 90))
     = Inr (True, (init ''a.png'' ''out'' 1 0 ''png'' 90)\<lparr>max_level := 1\<rparr>)"
  by (simp add: run_simps)

section \<open>Levels\<close>





section \<open>The shape of a run\<close>

lemma first_write_unique:
  "written_files X = [] \<Longrightarrow> written_files B = [] \<Longrightarrow>
     X @ WriteFile p c # Y = B @ WriteFile p' c' # A \<Longrightarrow> X = B \<and> p = p' \<and> c = c' \<and> Y = A"
proof (induction X arbitrary: B)
  case Nil
  then show ?case by (cases B) auto
next
  case (Cons x X)
  show ?case
  proof (cases B)
    case Nil
    with Cons.prems show ?thesis by auto
  next
    case (Cons b B')
    with Cons.prems have xb: "x = b" and eq: "X @ WriteFile p c # Y = B' @ WriteFile p' c' # A"
      by auto
    have "written_files X = []" using Cons.prems(1) by (cases x) auto
    moreover have "written_files B' = []"
      using Cons.prems(2) Cons by (cases b) auto
    ultimately show ?thesis using Cons.IH[OF _ _ eq] xb Cons by simp
  qed
qed

lemma save_in_paths: "ImageSave t p opts \<in> set tr \<Longrightarrow> save_paths tr \<noteq> []"
  by (induction tr rule: save_paths.induct) auto

lemma path_in_saves: "p \<in> set (save_paths tr) \<Longrightarrow> \<exists>t opts. ImageSave t p opts \<in> set tr"
  by (induction tr rule: save_paths.induct) auto

lemma raises_banner:
  "raises en (ImageOpen (image_path self)) = None \<Longrightarrow> \<forall>ev \<in> set (banner self). raises en ev = None"
  by (simp add: banner_def)

lemma ok_emit_banner:
  assumes "raises en (ImageOpen (image_path self)) = None" "ok en m"
  shows "ok en (emit (banner self) m)"
proof -
  have b: "\<forall>ev \<in> set (banner self). raises en ev = None"
    using assms(1) by (rule raises_banner)
  show ?thesis
  proof (cases "fst m = []")
    case True
    then show ?thesis using b
      by (auto simp: ok_def emit_def dest: in_set_butlastD split: option.splits)
  next
    case False
    then show ?thesis using b assms(2)
      by (auto simp: ok_def emit_def butlast_append split: option.splits)
  qed
qed

text \<open>The shape of any run of \<^verbatim>\<open>generate\<close>.\<close>

lemma generate_cases:
  fixes en self
  defines "R \<equiv> generate en self"
  defines "img0 \<equiv> file_image en (image_path self)"
  defines "w \<equiv> fst (size_px img0)" and "h \<equiv> snd (size_px img0)"
  obtains
    (unopened) e where "raises en (ImageOpen (image_path self)) = Some e"
      "R = (banner self @ [Stdout (ErrorOpeningLine e)], Inr (False, self))"
  | (early) e where "raises en (ImageOpen (image_path self)) = None" "ok en R"
      "snd R = Inl e" "written_files (fst R) = []" "save_paths (fst R) = []"
      "((snd (normalize_mode en img0) = Inl e
          \<or> (\<exists>img. snd (normalize_mode en img0) = Inr img) \<and> compute_max_level w h = Inl e)
         \<and> fst R = banner self @ [Stdout (ImageSizeLine w h), Stdout (ModeLine (mode img0))]
                @ fst (normalize_mode en img0))
       \<or> (\<exists>ml. compute_max_level w h = Inr ml \<and> (\<exists>img. snd (normalize_mode en img0) = Inr img)
          \<and> raises en (MakeDirs (tiles_dir self)) = Some e
          \<and> fst R = banner self @ prologue en self img0 ml)"
  | (levels) e ml img where "raises en (ImageOpen (image_path self)) = None" "ok en R"
      "snd R = Inl e" "written_files (fst R) = []"
      "compute_max_level w h = Inr ml"
      "snd (levels_loop en (self\<lparr>max_level := ml\<rparr>) img w h (range_py (ml + 1)) 0) = Inl e"
      "fst R = banner self @ prologue en self img0 ml
         @ fst (levels_loop en (self\<lparr>max_level := ml\<rparr>) img w h (range_py (ml + 1)) 0)"
  | (written) ml img tot post where "raises en (ImageOpen (image_path self)) = None" "ok en R"
      "compute_max_level w h = Inr ml"
      "snd (levels_loop en (self\<lparr>max_level := ml\<rparr>) img w h (range_py (ml + 1)) 0) = Inr tot"
      "fst R = banner self @ prologue en self img0 ml
         @ fst (levels_loop en (self\<lparr>max_level := ml\<rparr>) img w h (range_py (ml + 1)) 0)
         @ WriteFile (dzi_file self) (dzi_content (self\<lparr>max_level := ml\<rparr>) w h) # post"
      "written_files post = []" "save_paths post = []"
      "snd R = Inr (True, self\<lparr>max_level := ml\<rparr>) \<or> (\<exists>e. snd R = Inl e)"
proof (cases "raises en (ImageOpen (image_path self))")
  case (Some e)
  then show ?thesis using unopened[of e] by (simp add: R_def generate_eq)
next
  case None
  then have R: "R = emit (banner self) (generate_opened en self img0)"
    by (simp add: R_def generate_eq img0_def)
  have okR: "ok en R"
    unfolding R using None by (intro ok_emit_banner ok_generate_opened)
  show ?thesis
  proof (cases rule: generate_opened_cases[of en self img0])
    case (early e)
    have "fst R = banner self @ fst (generate_opened en self img0)" by (simp add: R)
    with early(4) have "((snd (normalize_mode en img0) = Inl e
          \<or> (\<exists>img. snd (normalize_mode en img0) = Inr img) \<and> compute_max_level w h = Inl e)
         \<and> fst R = banner self @ [Stdout (ImageSizeLine w h), Stdout (ModeLine (mode img0))]
                @ fst (normalize_mode en img0))
       \<or> (\<exists>ml. compute_max_level w h = Inr ml \<and> (\<exists>img. snd (normalize_mode en img0) = Inr img)
          \<and> raises en (MakeDirs (tiles_dir self)) = Some e
          \<and> fst R = banner self @ prologue en self img0 ml)"
      unfolding w_def h_def by auto
    then show ?thesis using that(2)[of e] None okR early(1,2,3) by (simp add: R)
  next
    case (levels e ml img)
    then show ?thesis using that(3)[of e ml img] None okR by (simp add: R w_def h_def)
  next
    case (written ml img tot)
    from written(4) show ?thesis
    proof (elim disjE exE conjE)
      assume "snd (generate_opened en self img0) = Inr (True, self\<lparr>max_level := ml\<rparr>)"
        and "fst (generate_opened en self img0) = prologue en self img0 ml @
          fst (levels_loop en (self\<lparr>max_level := ml\<rparr>) img (fst (size_px img0))
            (snd (size_px img0)) (range_py (ml + 1)) 0) @
          WriteFile (dzi_file self) (dzi_content (self\<lparr>max_level := ml\<rparr>) (fst (size_px img0))
            (snd (size_px img0))) # epilogue self tot"
      then show ?thesis
        using that(4)[of ml img tot "epilogue self tot"] None okR written(1,3)
        by (simp add: R w_def h_def)
    next
      fix e
      assume "snd (generate_opened en self img0) = Inl e"
        and "fst (generate_opened en self img0) = prologue en self img0 ml @
          fst (levels_loop en (self\<lparr>max_level := ml\<rparr>) img (fst (size_px img0))
            (snd (size_px img0)) (range_py (ml + 1)) 0) @
          [WriteFile (dzi_file self) (dzi_content (self\<lparr>max_level := ml\<rparr>) (fst (size_px img0))
            (snd (size_px img0)))]"
      then show ?thesis
        using that(4)[of ml img tot "[]"] None okR written(1,3)
        by (simp add: R w_def h_def)
    qed
  qed
qed

lemma ok_fault_last:
  assumes "ok en m" "ev \<in> set (fst m)" "raises en ev = Some e"
  shows "last (fst m) = ev \<and> snd m = Inl e"
proof -
  have ne: "fst m \<noteq> []" using assms(2) by auto
  then have "fst m = butlast (fst m) @ [last (fst m)]" by simp
  then have "ev \<in> set (butlast (fst m)) \<or> ev = last (fst m)"
    using assms(2) by (metis Un_iff empty_iff empty_set insert_iff list.simps(15) set_append)
  moreover have "ev \<notin> set (butlast (fst m))"
    using assms(1,3) by (auto simp: ok_def)
  ultimately have l: "ev = last (fst m)" by blast
  then show ?thesis using assms(1,3) ne by (auto simp: ok_def)
qed

lemma generate_written:
  "written_files (fst (generate en self)) = [] \<or>
   (\<exists>c. written_files (fst (generate en self)) = [(dzi_file self, c)]
      \<and> (\<forall>t p opts. ImageSave t p opts \<in> set (fst (generate en self))
            \<longrightarrow> raises en (ImageSave t p opts) = None))"
proof (cases rule: generate_cases[of en self])
  case (unopened e)
  then show ?thesis by simp
next
  case (early e)
  then show ?thesis by simp
next
  case (levels e ml img)
  then show ?thesis by simp
next
  case (written ml img tot post)
  let ?X = "banner self @ prologue en self (file_image en (image_path self)) ml
         @ fst (levels_loop en (self\<lparr>max_level := ml\<rparr>) img
             (fst (size_px (file_image en (image_path self))))
             (snd (size_px (file_image en (image_path self)))) (range_py (ml + 1)) 0)"
  have "\<forall>ev \<in> set (butlast (fst (generate en self))). raises en ev = None"
    using written(2) by (simp add: ok_def)
  moreover have "set ?X \<subseteq> set (butlast (fst (generate en self)))"
    unfolding written(5) by (auto simp: butlast_append)
  ultimately have X: "\<forall>ev \<in> set ?X. raises en ev = None"
    by blast
  have "\<And>t p opts. ImageSave t p opts \<in> set (fst (generate en self))
            \<Longrightarrow> raises en (ImageSave t p opts) = None"
  proof -
    fix t p opts assume a: "ImageSave t p opts \<in> set (fst (generate en self))"
    then have "ImageSave t p opts \<in> set ?X \<or> ImageSave t p opts \<in> set post"
      unfolding written(5) by auto
    moreover have "ImageSave t p opts \<notin> set post"
      using save_in_paths written(7) by blast
    ultimately show "raises en (ImageSave t p opts) = None" using X by blast
  qed
  then show ?thesis
    using written(6) by (simp add: written(5) written_levels_loop)
qed

lemma save_fault_ends_run:
  assumes "ImageSave t p opts \<in> set (fst (generate en self))"
    and "raises en (ImageSave t p opts) = Some e"
  shows "snd (generate en self) = Inl e
    \<and> last (fst (generate en self)) = ImageSave t p opts
    \<and> (\<forall>ev \<in> set (butlast (fst (generate en self))). raises en ev = None)
    \<and> written_files (fst (generate en self)) = []"
proof -
  have okR: "ok en (generate en self)"
  proof (cases rule: generate_cases[of en self])
    case (unopened e')
    then show ?thesis using assms(1) by (auto simp: banner_def)
  qed simp_all
  have w: "written_files (fst (generate en self)) = []"
    using generate_written[of en self] assms by auto
  show ?thesis
    using ok_fault_last[OF okR assms] okR w by (simp add: ok_def)
qed


lemmas fail_simps = failing_env_def run_simps

section \<open>The descriptor\<close>

text \<open>
  Claim C4. In every successful run, whatever the tile size, overlap and format, exactly one
  file is written with \<^verbatim>\<open>open(..., 'w')\<close>: the descriptor, and its \<^verbatim>\<open>Size\<close> element carries
  the width and height that were read from the source image right after it was opened, not
  the dimensions of any level.
\<close>

theorem descriptor_has_original_size:
  assumes "snd (generate en self) = Inr (True, g)"
    and "size_px (file_image en (image_path self)) = (w, h)"
  shows "written_files (fst (generate en self)) = [(dzi_file self, dzi_content g w h)]
    \<and> tile_size g = tile_size self \<and> overlap g = overlap self \<and> format g = format self
    \<and> (\<exists>pre post. dzi_content g w h =
          pre @ ''<Size Height='' @ [dquote] @ str_int h @ [dquote]
              @ '' Width='' @ [dquote] @ str_int w @ [dquote] @ ''/>'' @ post)"
proof -
  from generate_success[OF assms] obtain ml img tot where
    g: "g = self\<lparr>max_level := ml\<rparr>"
    and tr: "fst (generate en self) =
       banner self @ prologue en self (file_image en (image_path self)) ml
       @ fst (levels_loop en g img w h (range_py (ml + 1)) 0)
       @ WriteFile (dzi_file self) (dzi_content g w h) # epilogue self tot"
    by blast
  have 1: "written_files (fst (generate en self)) = [(dzi_file self, dzi_content g w h)]"
    by (simp add: tr written_levels_loop)
  have 2: "tile_size g = tile_size self \<and> overlap g = overlap self \<and> format g = format self"
    by (simp add: g)
  have 3: "\<exists>pre post. dzi_content g w h =
          pre @ ''<Size Height='' @ [dquote] @ str_int h @ [dquote]
              @ '' Width='' @ [dquote] @ str_int w @ [dquote] @ ''/>'' @ post"
    unfolding dzi_content_def
    by (rule exI[of _ "''<?xml version='' @ [dquote] @ ''1.0'' @ [dquote] @ '' encoding=''
         @ [dquote] @ ''UTF-8'' @ [dquote] @ ''?>'' @ [newline]
       @ ''<Image xmlns='' @ [dquote] @ ''http://schemas.microsoft.com/deepzoom/2008'' @ [dquote]
         @ [newline]
       @ ''       Format='' @ [dquote] @ format g @ [dquote] @ [newline]
       @ ''       Overlap='' @ [dquote] @ str_int (overlap g) @ [dquote] @ [newline]
       @ ''       TileSize='' @ [dquote] @ str_int (tile_size g) @ [dquote] @ ''>'' @ [newline]
       @ ''    ''"],
        rule exI[of _ "[newline] @ ''    <Sources>'' @ [newline]
       @ ''        <TileGroup Url='' @ [dquote] @ basename (tiles_dir g) @ ''/'' @ [dquote]
         @ '' />'' @ [newline]
       @ ''    </Sources>'' @ [newline]
       @ ''</Image>''"]) simp
  show ?thesis using 1 2 3 by blast
qed

text \<open>The descriptor of the 2 by 1 example.\<close>

theorem descriptor_has_original_size_witness:
  "snd (generate (quiet_env (2, 1) ''RGB'') (init ''a.png'' ''out'' 1 0 ''png'' 90))
     = Inr (True, (init ''a.png'' ''out'' 1 0 ''png'' 90)\<lparr>max_level := 1\<rparr>)
   \<and> written_files (fst (generate (quiet_env (2, 1) ''RGB'') (init ''a.png'' ''out'' 1 0 ''png'' 90)))
     = [(''out.dzi'', dzi_content ((init ''a.png'' ''out'' 1 0 ''png'' 90)\<lparr>max_level := 1\<rparr>) 2 1)]"
proof -
  let ?E = "quiet_env (2, 1) ''RGB''" and ?G = "init ''a.png'' ''out'' 1 0 ''png'' 90"
  have sz: "size_px (file_image ?E (image_path ?G)) = (2, 1)"
    by (simp add: quiet_env_def)
  have "written_files (fst (generate ?E ?G))
      = [(dzi_file ?G, dzi_content (?G\<lparr>max_level := 1\<rparr>) 2 1)]"
    using descriptor_has_original_size[OF example_run sz] by (rule conjunct1)
  then show ?thesis using example_run by (simp add: init_def)
qed

text \<open>
  Claim C5. In every run the descriptor is written at most once. When it is written, every
  call before it succeeded, the tiles saved before it are exactly the planned tiles of all
  levels \<open>0, \<dots>, maxLevel\<close>, and nothing is saved or written after it. When saving a tile
  fails, the run ends with an exception and never writes the descriptor.
\<close>

theorem descriptor_written_last:
  assumes "size_px (file_image en (image_path self)) = (w, h)"
  shows "length (written_files (fst (generate en self))) \<le> 1
    \<and> (\<forall>before p c after. fst (generate en self) = before @ WriteFile p c # after \<longrightarrow>
          (\<exists>ml. compute_max_level w h = Inr ml \<and> p = dzi_file self
             \<and> save_paths before = planned_tiles (self\<lparr>max_level := ml\<rparr>) w h [0..ml]
             \<and> (\<forall>ev \<in> set before. raises en ev = None)
             \<and> written_files before = [] \<and> written_files after = []
             \<and> save_paths after = []))
    \<and> (\<forall>t p opts. ImageSave t p opts \<in> set (fst (generate en self))
            \<and> raises en (ImageSave t p opts) \<noteq> None \<longrightarrow>
          written_files (fst (generate en self)) = []
        \<and> (\<exists>e. snd (generate en self) = Inl e))"
proof -
  let ?tr = "fst (generate en self)"
  have wh: "fst (size_px (file_image en (image_path self))) = w"
    "snd (size_px (file_image en (image_path self))) = h"
    using assms by simp_all
  have 1: "length (written_files ?tr) \<le> 1"
    using generate_written[of en self] by auto
  have 3: "\<forall>t p opts. ImageSave t p opts \<in> set ?tr \<and> raises en (ImageSave t p opts) \<noteq> None
      \<longrightarrow> written_files ?tr = [] \<and> (\<exists>e. snd (generate en self) = Inl e)"
    using save_fault_ends_run[of _ _ _ en self] by blast
  have 2: "\<forall>before p c after. ?tr = before @ WriteFile p c # after \<longrightarrow>
          (\<exists>ml. compute_max_level w h = Inr ml \<and> p = dzi_file self
             \<and> save_paths before = planned_tiles (self\<lparr>max_level := ml\<rparr>) w h [0..ml]
             \<and> (\<forall>ev \<in> set before. raises en ev = None)
             \<and> written_files before = [] \<and> written_files after = []
             \<and> save_paths after = [])"
  proof (intro allI impI)
    fix before p c after
    assume d: "?tr = before @ WriteFile p c # after"
    then have wne: "written_files ?tr \<noteq> []" by simp
    show "\<exists>ml. compute_max_level w h = Inr ml \<and> p = dzi_file self
             \<and> save_paths before = planned_tiles (self\<lparr>max_level := ml\<rparr>) w h [0..ml]
             \<and> (\<forall>ev \<in> set before. raises en ev = None)
             \<and> written_files before = [] \<and> written_files after = []
             \<and> save_paths after = []"
    proof (cases rule: generate_cases[of en self])
      case (unopened e)
      then show ?thesis using wne by simp
    next
      case (early e)
      then show ?thesis using wne by simp
    next
      case (levels e ml img)
      then show ?thesis using wne by simp
    next
      case (written ml img tot post)
      let ?g = "self\<lparr>max_level := ml\<rparr>"
      let ?L = "fst (levels_loop en ?g img w h (range_py (ml + 1)) 0)"
      let ?X = "banner self @ prologue en self (file_image en (image_path self)) ml @ ?L"
      have t: "?tr = ?X @ WriteFile (dzi_file self) (dzi_content ?g w h) # post"
        using written(5) unfolding wh by simp
      have wX: "written_files ?X = []" by (simp add: written_levels_loop)
      have "written_files ?tr = [(dzi_file self, dzi_content ?g w h)]"
        unfolding t using wX written(6) by simp
      then have "written_files before @ (p, c) # written_files after
          = [(dzi_file self, dzi_content ?g w h)]"
        unfolding d by simp
      then have wb: "written_files before = []" and wa: "written_files after = []"
        by (simp_all add: append_eq_Cons_conv)
      from first_write_unique[OF wX wb t[unfolded d, symmetric]]
      have eq: "?X = before" "dzi_file self = p" "post = after" by simp_all
      have nn: "0 \<le> ml" using compute_max_level_nonneg[OF written(3)] .
      have l: "snd (levels_loop en ?g img w h (range_py (ml + 1)) 0) = Inr tot"
        using written(4) unfolding wh .
      have sp: "save_paths ?X = planned_tiles ?g w h [0..ml]"
        using levels_loop_success[OF l] nn by (simp add: range_py_Suc)
      have "\<forall>ev \<in> set (butlast ?tr). raises en ev = None"
        using written(2) by (simp add: ok_def)
      moreover have "set ?X \<subseteq> set (butlast ?tr)"
        unfolding t by (auto simp: butlast_append)
      ultimately have rX: "\<forall>ev \<in> set ?X. raises en ev = None" by blast
      show ?thesis
        using written(3,7) sp rX wb wa unfolding wh eq by blast
    qed
  qed
  show ?thesis using 1 2 3 by blast
qed

text \<open>In the 2 by 1 example the three tiles are saved before the descriptor is written.\<close>

theorem descriptor_written_last_witness:
  "\<exists>before c after.
     fst (generate (quiet_env (2, 1) ''RGB'') (init ''a.png'' ''out'' 1 0 ''png'' 90))
       = before @ WriteFile ''out.dzi'' c # after
   \<and> save_paths before = [''out_files/0/0_0.png'', ''out_files/1/0_0.png'', ''out_files/1/1_0.png'']
   \<and> written_files before = [] \<and> save_paths after = []"
proof -
  let ?E = "quiet_env (2, 1) ''RGB''" and ?G = "init ''a.png'' ''out'' 1 0 ''png'' 90"
  have sz: "size_px (file_image ?E (image_path ?G)) = (2, 1)"
    by (simp add: quiet_env_def)
  from generate_success[OF example_run sz] obtain before c after where
    d: "fst (generate ?E ?G) = before @ WriteFile (dzi_file ?G) c # after"
    by (metis append.assoc)
  from descriptor_written_last[OF sz, THEN conjunct2, THEN conjunct1, rule_format, OF d]
  obtain ml where m: "compute_max_level 2 1 = Inr ml"
    and s: "save_paths before = planned_tiles (?G\<lparr>max_level := ml\<rparr>) 2 1 [0..ml]"
    and w: "written_files before = []" "save_paths after = []"
    by blast
  have ml: "ml = 1" using m by (simp add: compute_max_level_code clog2.simps)
  have "save_paths before
      = [''out_files/0/0_0.png'', ''out_files/1/0_0.png'', ''out_files/1/1_0.png'']"
    unfolding s ml
    by (simp add: planned_tiles_def planned_cols_def planned_rows_def level_width_def
        level_height_def scale_factor_def math_ceil_def init_def upto.simps grid_coords_def
        range_py_def tile_path_def level_dir_of_def tile_filename_def path_join_def
        str_int_def str_nat.simps digit_char_def lower_def lower_char_def
        ceiling_one_div_numeral)
  with d w show ?thesis by (auto simp: init_def)
qed

section \<open>A tile that cannot be saved\<close>

lemma failing_run_second:
  "save_paths (fst (generate (failing_env (2, 1) ''RGB'' ''out_files/1/1_0.png'')
      (init ''a.png'' ''out'' 1 0 ''png'' 90)))
    = [''out_files/0/0_0.png'', ''out_files/1/0_0.png'', ''out_files/1/1_0.png'']"
  "snd (generate (failing_env (2, 1) ''RGB'' ''out_files/1/1_0.png'')
      (init ''a.png'' ''out'' 1 0 ''png'' 90)) = Inl OSError"
  "stdout_of (fst (generate (failing_env (2, 1) ''RGB'' ''out_files/1/1_0.png'')
      (init ''a.png'' ''out'' 1 0 ''png'' 90)))
    = [Rule60, TitleLine, Rule60, OpeningLine ''a.png'', ImageSizeLine 2 1, ModeLine ''RGB'',
       MaxZoomLine 1, GeneratingLine 2 1, TileSizeLine 1, OverlapLine 0,
       LevelLine 0 1 1 1 1 1, ProgressLine 1 1, EmptyLine, LevelLine 1 2 1 2 1 2]"
  by (simp_all add: fail_simps digit_char_def ceiling_one_div_numeral)

lemma failing_run_first:
  "save_paths (fst (generate (failing_env (2, 1) ''RGB'' ''out_files/1/0_0.png'')
      (init ''a.png'' ''out'' 1 0 ''png'' 90)))
    = [''out_files/0/0_0.png'', ''out_files/1/0_0.png'']"
  "snd (generate (failing_env (2, 1) ''RGB'' ''out_files/1/0_0.png'')
      (init ''a.png'' ''out'' 1 0 ''png'' 90)) = Inl OSError"
  "stdout_of (fst (generate (failing_env (2, 1) ''RGB'' ''out_files/1/0_0.png'')
      (init ''a.png'' ''out'' 1 0 ''png'' 90)))
    = [Rule60, TitleLine, Rule60, OpeningLine ''a.png'', ImageSizeLine 2 1, ModeLine ''RGB'',
       MaxZoomLine 1, GeneratingLine 2 1, TileSizeLine 1, OverlapLine 0,
       LevelLine 0 1 1 1 1 1, ProgressLine 1 1, EmptyLine, LevelLine 1 2 1 2 1 2]"
  by (simp_all add: fail_simps digit_char_def ceiling_one_div_numeral)

text \<open>
  Claim C7, as the code has it. When saving a tile raises, that call is the last thing the
  run does, all calls before it succeeded, the exception of the call is the outcome of the
  whole run, unchanged, and no descriptor is written. The generator adds nothing to the
  exception: which tile failed is not part of what the run reports.
\<close>

theorem tile_failure_is_fatal:
  assumes "ImageSave t p opts \<in> set (fst (generate en self))"
    and "raises en (ImageSave t p opts) = Some e"
  shows "snd (generate en self) = Inl e
    \<and> last (fst (generate en self)) = ImageSave t p opts
    \<and> (\<forall>ev \<in> set (butlast (fst (generate en self))). raises en ev = None)
    \<and> written_files (fst (generate en self)) = []"
  using assms by (rule save_fault_ends_run)

text \<open>The second tile of level 1 cannot be saved.\<close>

theorem tile_failure_is_fatal_witness:
  "snd (generate (failing_env (2, 1) ''RGB'' ''out_files/1/1_0.png'')
      (init ''a.png'' ''out'' 1 0 ''png'' 90)) = Inl OSError
   \<and> written_files (fst (generate (failing_env (2, 1) ''RGB'' ''out_files/1/1_0.png'')
      (init ''a.png'' ''out'' 1 0 ''png'' 90))) = []
   \<and> (\<exists>t opts. last (fst (generate (failing_env (2, 1) ''RGB'' ''out_files/1/1_0.png'')
      (init ''a.png'' ''out'' 1 0 ''png'' 90))) = ImageSave t ''out_files/1/1_0.png'' opts)"
proof -
  let ?F = "failing_env (2, 1) ''RGB'' ''out_files/1/1_0.png''"
  let ?G = "init ''a.png'' ''out'' 1 0 ''png'' 90"
  have "''out_files/1/1_0.png'' \<in> set (save_paths (fst (generate ?F ?G)))"
    unfolding failing_run_second(1) by simp
  then obtain t opts where m: "ImageSave t ''out_files/1/1_0.png'' opts \<in> set (fst (generate ?F ?G))"
    using path_in_saves by blast
  have r: "raises ?F (ImageSave t ''out_files/1/1_0.png'' opts) = Some OSError"
    by (simp add: failing_env_def raises_def)
  from tile_failure_is_fatal[OF m r] show ?thesis by blast
qed

text \<open>
  Two runs on the same source, one failing at tile \<open>(0, 0)\<close> and one at tile \<open>(1, 0)\<close> of
  level 1 with the same exception: their outcomes and everything they print are the same.
\<close>

theorem failed_tile_not_reported:
  "snd (generate (failing_env (2, 1) ''RGB'' ''out_files/1/0_0.png'')
         (init ''a.png'' ''out'' 1 0 ''png'' 90))
     = snd (generate (failing_env (2, 1) ''RGB'' ''out_files/1/1_0.png'')
         (init ''a.png'' ''out'' 1 0 ''png'' 90))
   \<and> stdout_of (fst (generate (failing_env (2, 1) ''RGB'' ''out_files/1/0_0.png'')
         (init ''a.png'' ''out'' 1 0 ''png'' 90)))
     = stdout_of (fst (generate (failing_env (2, 1) ''RGB'' ''out_files/1/1_0.png'')
         (init ''a.png'' ''out'' 1 0 ''png'' 90)))
   \<and> last (save_paths (fst (generate (failing_env (2, 1) ''RGB'' ''out_files/1/0_0.png'')
         (init ''a.png'' ''out'' 1 0 ''png'' 90)))) = ''out_files/1/0_0.png''
   \<and> last (save_paths (fst (generate (failing_env (2, 1) ''RGB'' ''out_files/1/1_0.png'')
         (init ''a.png'' ''out'' 1 0 ''png'' 90)))) = ''out_files/1/1_0.png''"
  by (simp add: failing_run_first failing_run_second)

section \<open>The crop rectangle of a tile\<close>

lemma save_tile_events:
  "ev \<in> set (fst (save_tile en self img level_dir col row lw lh)) \<Longrightarrow>
     (case crop_box self col row lw lh of (x1, y1, x2, y2) \<Rightarrow>
        (\<forall>i b. ev = ImageCrop i b \<longrightarrow> i = img \<and> b = (x1, y1, x2, y2))
      \<and> (\<forall>t p opts. ev = ImageSave t p opts \<longrightarrow> size_px t = (x2 - x1, y2 - y1)))"
  by (auto simp: save_tile_def Let_def io_bind_def call_def convert_def io_return_def crop_def
           split: if_splits sum.splits option.splits prod.splits)

text \<open>
  Claim C3. For a tile \<open>(col, row)\<close> inside the grid of a level of \<open>lw\<close> by \<open>lh\<close> pixels
  (positive tile size, non-negative overlap), the rectangle that \<^verbatim>\<open>_save_tile\<close> crops is the
  overlap-expanded content rectangle with every coordinate clamped to the level: left and top
  are never negative, right and bottom never exceed the level's width and height, the
  rectangle is not empty and never larger than tile size plus twice the overlap, and the image
  handed to \<^verbatim>\<open>save\<close> has exactly the rectangle's size (edge tiles shrink, nothing is padded).
\<close>

theorem crop_box_clamped:
  assumes "0 < tile_size self" and "0 \<le> overlap self"
    and "ceil_truediv (of_int lw) (of_int (tile_size self)) = Inr cols"
    and "ceil_truediv (of_int lh) (of_int (tile_size self)) = Inr rows"
    and "0 \<le> col" and "col < cols" and "0 \<le> row" and "row < rows"
  shows "crop_box self col row lw lh =
           (clamp 0 lw (col * tile_size self - overlap self),
            clamp 0 lh (row * tile_size self - overlap self),
            clamp 0 lw (col * tile_size self + tile_size self + overlap self),
            clamp 0 lh (row * tile_size self + tile_size self + overlap self))
       \<and> (case crop_box self col row lw lh of (x1, y1, x2, y2) \<Rightarrow>
            0 \<le> x1 \<and> x1 < x2 \<and> x2 \<le> lw \<and> 0 \<le> y1 \<and> y1 < y2 \<and> y2 \<le> lh
          \<and> x2 - x1 \<le> tile_size self + 2 * overlap self
          \<and> y2 - y1 \<le> tile_size self + 2 * overlap self
          \<and> (\<forall>ev \<in> set (fst (save_tile en self img level_dir col row lw lh)).
                (\<forall>i b. ev = ImageCrop i b \<longrightarrow> i = img \<and> b = (x1, y1, x2, y2))
              \<and> (\<forall>t p opts. ev = ImageSave t p opts \<longrightarrow> size_px t = (x2 - x1, y2 - y1))))"
proof -
  let ?ts = "tile_size self"
  have c: "cols = \<lceil>real_of_int lw / real_of_int ?ts\<rceil>"
    and r: "rows = \<lceil>real_of_int lh / real_of_int ?ts\<rceil>"
    using assms(1,3,4) by (simp_all add: ceil_truediv_pos)
  have x: "col * ?ts < lw" using in_grid_less[OF assms(1)] assms(6) c by simp
  have y: "row * ?ts < lh" using in_grid_less[OF assms(1)] assms(8) r by simp
  have x0: "0 \<le> col * ?ts" using assms(1,5) by simp
  have y0: "0 \<le> row * ?ts" using assms(1,7) by simp
  have box: "crop_box self col row lw lh =
           (clamp 0 lw (col * ?ts - overlap self), clamp 0 lh (row * ?ts - overlap self),
            clamp 0 lw (col * ?ts + ?ts + overlap self),
            clamp 0 lh (row * ?ts + ?ts + overlap self))"
    using x y x0 y0 assms(1,2) by (auto simp: crop_box_def clamp_def Let_def)
  have bounds: "case crop_box self col row lw lh of (x1, y1, x2, y2) \<Rightarrow>
            0 \<le> x1 \<and> x1 < x2 \<and> x2 \<le> lw \<and> 0 \<le> y1 \<and> y1 < y2 \<and> y2 \<le> lh
          \<and> x2 - x1 \<le> ?ts + 2 * overlap self \<and> y2 - y1 \<le> ?ts + 2 * overlap self"
    using x y x0 y0 assms(1,2) by (auto simp: crop_box_def Let_def)
  have evs: "\<forall>ev \<in> set (fst (save_tile en self img level_dir col row lw lh)).
      (case crop_box self col row lw lh of (x1, y1, x2, y2) \<Rightarrow>
        (\<forall>i b. ev = ImageCrop i b \<longrightarrow> i = img \<and> b = (x1, y1, x2, y2))
      \<and> (\<forall>t p opts. ev = ImageSave t p opts \<longrightarrow> size_px t = (x2 - x1, y2 - y1)))"
    by (intro ballI) (rule save_tile_events)
  obtain x1 y1 x2 y2 where b: "crop_box self col row lw lh = (x1, y1, x2, y2)"
    by (cases "crop_box self col row lw lh") auto
  show ?thesis
    using box bounds evs unfolding b by simp
qed

text \<open>
  The tile \<open>(1, 0)\<close> of a 300 by 200 level with 256-pixel tiles and overlap 1: its right
  edge is clamped to 300.
\<close>

theorem crop_box_clamped_witness:
  "0 < tile_size (init ''a.png'' ''out'' 256 1 ''jpeg'' 90)
   \<and> ceil_truediv (of_int 300) (of_int (tile_size (init ''a.png'' ''out'' 256 1 ''jpeg'' 90)))
       = Inr 2
   \<and> crop_box (init ''a.png'' ''out'' 256 1 ''jpeg'' 90) 1 0 300 200 = (255, 0, 300, 200)"
proof -
  let ?g = "init ''a.png'' ''out'' 256 1 ''jpeg'' 90"
  have ts: "0 < tile_size ?g" and ov: "0 \<le> overlap ?g"
    by (simp_all add: init_def)
  have c: "ceil_truediv (of_int 300) (of_int (tile_size ?g)) = Inr 2"
    and r: "ceil_truediv (of_int 200) (of_int (tile_size ?g)) = Inr 1"
    by (simp_all add: init_def ceil_truediv_def truediv_def math_ceil_def)
  have "crop_box ?g 1 0 300 200 =
      (clamp 0 300 (1 * tile_size ?g - overlap ?g), clamp 0 200 (0 * tile_size ?g - overlap ?g),
       clamp 0 300 (1 * tile_size ?g + tile_size ?g + overlap ?g),
       clamp 0 200 (0 * tile_size ?g + tile_size ?g + overlap ?g))"
    using crop_box_clamped [OF ts ov c r, of 1 0] by simp
  then show ?thesis using ts c by (simp add: init_def clamp_def)
qed

end
